theory Spec2Isabelle
  imports
    Complex_Main
    "HOL-Library.Char_ord"
    "HOL-Library.List_Lexorder"
    "HOL-Library.Log_Nat"
    "HOL-Library.Product_Lexorder"
begin

section \<open>The incremental pipeline (src/etl.py)\<close>

subsection \<open>Data model\<close>

text \<open>
  Timestamps are instants counted in seconds since 1970-01-01T00:00:00; the watermark
  file holds one of them. A cell of a date column is either empty (pandas
  \<open>NaT\<close>/\<open>NaN\<close>), a value that is or parses to a timestamp, or a string that pandas
  cannot parse.
\<close>

type_synonym timestamp = int

datatype datecell = NaT | Date timestamp | Unparsed string

text \<open>
  One row of the employee relation at any stage of the pipeline. Every column the
  pipeline ever creates is a field; a column that a data frame does not carry is left
  empty in its rows, and the frame's \<open>columns\<close> list says which columns it carries.
  \<open>idx\<close> is the pandas index label of the row (not a column).
\<close>

record employee =
  idx :: nat
  person_id :: "string option"
  full_name :: "string option"
  title :: "string option"
  email :: "string option"
  company_ein :: "string option"
  start_date :: datecell
  end_date :: datecell
  last_updated :: datecell
  notes_col :: "string option"
  row_id :: "nat option"
  personal_email :: "string option"
  phone_number :: "string option"

record dataframe =
  columns :: "string list"
  rows :: "employee list"

text \<open>
  The model covers frames on which pandas raises no \<open>KeyError\<close> and no
  \<open>AttributeError\<close>: a non-empty frame carries the columns the code indexes
  (\<open>person_id\<close>, \<open>email\<close>, \<open>start_date\<close>, \<open>title\<close>, \<open>company_ein\<close>), and its text
  columns hold strings or nothing. These are the columns of the input schema.
\<close>

text \<open>The plans and claims tables as pandas reads them; only their date cells matter
  to the pipeline.\<close>

record plan_record =
  pr_company_ein :: "string option"
  pr_plan_type :: "string option"
  pr_carrier_name :: "string option"
  pr_start_date :: datecell
  pr_end_date :: datecell

record claim_record =
  cr_company_ein :: "string option"
  cr_service_date :: datecell
  cr_amount :: "rat option"

text \<open>The exception of pandas that the model covers; the pipeline does not catch it.\<close>

datatype etl_error = TypeError

text \<open>\<open>pd.DataFrame()\<close>: no columns, no rows; \<open>df.empty\<close>: some axis has length 0.\<close>

definition empty_frame :: dataframe where
  "empty_frame = \<lparr>columns = [], rows = []\<rparr>"

definition df_empty :: "dataframe \<Rightarrow> bool" where
  "df_empty df = (rows df = [] \<or> columns df = [])"

text \<open>\<open>reset_index(drop=True)\<close>, and the \<open>RangeIndex\<close> of a table just read: the
  index label of a row is its position.\<close>

definition reset_index :: "employee list \<Rightarrow> employee list" where
  "reset_index rs = map (\<lambda>(i, r). r\<lparr>idx := i\<rparr>) (enumerate 0 rs)"

subsection \<open>Watermark store\<close>

text \<open>The files the pipeline keeps between runs: the watermark, the canonical store
  (\<open>clean_data.parquet\<close>) and the validation error ledger; \<open>None\<close> is a file that
  does not exist.\<close>

datatype error_reason =
    Invalid_email_format "string option"
  | Invalid_date_format datecell
  | Missing_title

record validation_error =
  ve_row_id :: "nat option"
  ve_field :: string
  ve_error_reason :: error_reason

record files =
  watermark :: "timestamp option"
  clean_data_file :: "dataframe option"
  validation_errors_file :: "validation_error list option"

text \<open>\<open>'1900-01-01T00:00:00'\<close> in seconds since the epoch.\<close>

definition min_watermark :: timestamp where
  "min_watermark = - 2208988800"

definition get_high_water_mark :: "files \<Rightarrow> timestamp" where
  "get_high_water_mark fs = (case watermark fs of None \<Rightarrow> min_watermark | Some t \<Rightarrow> t)"

text \<open>\<open>datetime.now()\<close> is the argument \<open>now\<close>.\<close>

definition update_high_water_mark :: "timestamp \<Rightarrow> files \<Rightarrow> files" where
  "update_high_water_mark now fs = fs\<lparr>watermark := Some now\<rparr>"

subsection \<open>Incremental reader\<close>

text \<open>
  \<open>read_csv(..., parse_dates=[col])\<close> leaves the column as strings when one cell does
  not parse, and comparing a string with a \<open>Timestamp\<close> raises \<open>TypeError\<close>. On a
  parsed column the comparison \<open>col > watermark\<close> is false on \<open>NaT\<close>.
\<close>

fun is_unparsed :: "datecell \<Rightarrow> bool" where
  "is_unparsed (Unparsed s) = True"
| "is_unparsed c = False"

fun later_than :: "timestamp \<Rightarrow> datecell \<Rightarrow> bool" where
  "later_than w (Date t) = (w < t)"
| "later_than w c = False"

definition ingest_data ::
  "timestamp \<Rightarrow> dataframe \<Rightarrow> plan_record list \<Rightarrow> claim_record list \<Rightarrow>
   etl_error + dataframe \<times> plan_record list \<times> claim_record list" where
  "ingest_data last_run_timestamp employees_csv plans_csv claims_csv =
     (let employees_df = employees_csv\<lparr>rows := reset_index (rows employees_csv)\<rparr>;
          claims_df = claims_csv;
          plans_df = plans_csv
      in if list_ex (\<lambda>r. is_unparsed (start_date r)) (rows employees_df)
            \<or> list_ex (\<lambda>c. is_unparsed (cr_service_date c)) claims_df
         then Inl TypeError
         else Inr (employees_df\<lparr>rows :=
                     filter (\<lambda>r. later_than last_run_timestamp (start_date r)) (rows employees_df)\<rparr>,
                   plans_df,
                   filter (\<lambda>c. later_than last_run_timestamp (cr_service_date c)) claims_df))"

subsection \<open>Cleaning and validation\<close>

text \<open>
  The address pattern of \<open>clean_data\<close>,
  \<^verbatim>\<open>^[a-zA-Z0-9._%+-]+@[a-zA-Z0-9.-]+\.[a-zA-Z]{2,}$\<close>, as \<open>re.match\<close> decides it.
  The first class does not hold \<open>@\<close>, so the local part is the longest run of its
  characters; \<open>$\<close> matches at the end of the string and before a newline that ends it.
\<close>

definition alpha_chars :: string where
  "alpha_chars = ''abcdefghijklmnopqrstuvwxyzABCDEFGHIJKLMNOPQRSTUVWXYZ''"

definition digit_chars :: string where
  "digit_chars = ''0123456789''"

definition local_char :: "char \<Rightarrow> bool" where
  "local_char c = (c \<in> set (alpha_chars @ digit_chars @ ''._%+-''))"

definition domain_char :: "char \<Rightarrow> bool" where
  "domain_char c = (c \<in> set (alpha_chars @ digit_chars @ ''.-''))"

definition alpha_char :: "char \<Rightarrow> bool" where
  "alpha_char c = (c \<in> set alpha_chars)"

definition dollar_ends :: "string \<Rightarrow> string list" where
  "dollar_ends s = (if s \<noteq> [] \<and> last s = CHR 0x0A then [s, butlast s] else [s])"

definition domain_match :: "string \<Rightarrow> bool" where
  "domain_match m =
     list_ex (\<lambda>n. list_all domain_char (take n m) \<and> m ! n = CHR ''.''
                 \<and> 2 \<le> length (drop (Suc n) m) \<and> list_all alpha_char (drop (Suc n) m))
       [1..<length m]"

definition email_regex_match :: "string \<Rightarrow> bool" where
  "email_regex_match s =
     (takeWhile local_char s \<noteq> [] \<and>
      (case dropWhile local_char s of
         [] \<Rightarrow> False
       | c # d \<Rightarrow> c = CHR ''@'' \<and> list_ex domain_match (dollar_ends d)))"

text \<open>\<open>str.match(email_regex, na=True)\<close>: a missing address counts as a match.\<close>

definition valid_emails :: "employee \<Rightarrow> bool" where
  "valid_emails r = (case email r of None \<Rightarrow> True | Some s \<Rightarrow> email_regex_match s)"

text \<open>\<open>drop_duplicates(subset=key)\<close> keeps the first row of each key and the order
  of the rows; with \<open>keep='last'\<close> it keeps the last one.\<close>

fun keep_first :: "('a \<Rightarrow> 'k) \<Rightarrow> 'k list \<Rightarrow> 'a list \<Rightarrow> 'a list" where
  "keep_first key seen [] = []"
| "keep_first key seen (x # xs) =
     (if key x \<in> set seen then keep_first key seen xs
      else x # keep_first key (key x # seen) xs)"

fun keep_last :: "('a \<Rightarrow> 'k) \<Rightarrow> 'a list \<Rightarrow> 'a list" where
  "keep_last key [] = []"
| "keep_last key (x # xs) =
     (if key x \<in> key ` set xs then keep_last key xs else x # keep_last key xs)"

text \<open>\<open>pd.to_datetime(col, errors='coerce')\<close> and \<open>isna()\<close> of its result.\<close>

fun coerce :: "datecell \<Rightarrow> datecell" where
  "coerce (Unparsed s) = NaT"
| "coerce c = c"

definition isna_date :: "datecell \<Rightarrow> bool" where
  "isna_date c = (coerce c = NaT)"

text \<open>One round of the loop over \<open>date_cols\<close>: \<open>get\<close> and \<open>put\<close> read and write
  the column \<open>col\<close>; \<open>key_date\<close> says whether the column is one of
  \<open>['start_date', 'last_updated']\<close>, whose empty rows are dropped.\<close>

definition check_date_col ::
  "string \<Rightarrow> (employee \<Rightarrow> datecell) \<Rightarrow> (datecell \<Rightarrow> employee \<Rightarrow> employee) \<Rightarrow> bool \<Rightarrow>
   dataframe \<times> validation_error list \<Rightarrow> dataframe \<times> validation_error list" where
  "check_date_col col get put key_date st =
     (let clean_df = fst st; errors = snd st
      in if col \<in> set (columns clean_df) then
           let invalid_dates = filter (\<lambda>r. isna_date (get r)) (rows clean_df);
               errors' = errors @ map (\<lambda>r. \<lparr>ve_row_id = row_id r, ve_field = col,
                                   ve_error_reason = Invalid_date_format (get r)\<rparr>) invalid_dates;
               coerced = map (\<lambda>r. put (coerce (get r)) r) (rows clean_df);
               kept = (if key_date then filter (\<lambda>r. get r \<noteq> NaT) coerced else coerced)
           in (clean_df\<lparr>rows := kept\<rparr>, errors')
         else st)"

text \<open>\<open>sort_values(['person_id', 'start_date'])\<close>: a stable sort, missing values
  last.\<close>

definition person_key :: "string option \<Rightarrow> nat \<times> string" where
  "person_key p = (case p of None \<Rightarrow> (1, []) | Some s \<Rightarrow> (0, s))"

fun date_key :: "datecell \<Rightarrow> nat \<times> int" where
  "date_key (Date t) = (0, t)"
| "date_key c = (1, 0)"

definition sort_values :: "employee list \<Rightarrow> employee list" where
  "sort_values rs = sort_key (\<lambda>r. (person_key (person_id r), date_key (start_date r))) rs"

text \<open>
  \<open>groupby('person_id')['title'].transform(lambda x: x.ffill().bfill())\<close>: within the
  rows of one person, in the order of the frame, a missing title takes the last title
  before it, or else the first title after it. \<open>groupby\<close> leaves out the rows without
  a \<open>person_id\<close>, and the assignment gives them a missing title.
\<close>

definition last_title :: "string \<Rightarrow> employee list \<Rightarrow> string option" where
  "last_title p rs =
     (case filter (\<lambda>r. person_id r = Some p \<and> title r \<noteq> None) rs of
        [] \<Rightarrow> None | y # ys \<Rightarrow> title (last (y # ys)))"

definition first_title :: "string \<Rightarrow> employee list \<Rightarrow> string option" where
  "first_title p rs =
     (case filter (\<lambda>r. person_id r = Some p \<and> title r \<noteq> None) rs of
        [] \<Rightarrow> None | y # ys \<Rightarrow> title y)"

definition ffill_bfill :: "employee list \<Rightarrow> employee \<Rightarrow> employee list \<Rightarrow> string option" where
  "ffill_bfill prior r later =
     (case person_id r of
        None \<Rightarrow> None
      | Some p \<Rightarrow>
          (case last_title p (prior @ [r]) of
             Some t \<Rightarrow> Some t
           | None \<Rightarrow> first_title p later))"

fun fill_titles :: "employee list \<Rightarrow> employee list \<Rightarrow> employee list" where
  "fill_titles prior [] = []"
| "fill_titles prior (r # later) =
     r\<lparr>title := ffill_bfill prior r later\<rparr> # fill_titles (prior @ [r]) later"

definition count_null_titles :: "employee list \<Rightarrow> int" where
  "count_null_titles rs = int (length (filter (\<lambda>r. title r = None) rs))"

definition fillna_title :: "employee \<Rightarrow> employee" where
  "fillna_title r = (case title r of None \<Rightarrow> r\<lparr>title := Some ''Unknown''\<rparr> | Some t \<Rightarrow> r)"

record clean_metrics =
  duplicates_removed :: nat
  nulls_filled :: int

definition add_column :: "string \<Rightarrow> string list \<Rightarrow> string list" where
  "add_column c cols = (if c \<in> set cols then cols else cols @ [c])"

definition clean_data :: "dataframe \<Rightarrow> dataframe \<times> validation_error list \<times> clean_metrics" where
  "clean_data df =
     (if df_empty df then (empty_frame, [], \<lparr>duplicates_removed = 0, nulls_filled = 0\<rparr>)
      else
        let with_id = map (\<lambda>r. r\<lparr>row_id := Some (idx r)\<rparr>) (rows df);
            cols = add_column ''row_id'' (columns df);
            deduped = keep_first (\<lambda>r. (person_id r, email r, start_date r)) [] with_id;
            invalid_email_rows = filter (\<lambda>r. \<not> valid_emails r) deduped;
            errors1 = map (\<lambda>r. \<lparr>ve_row_id = row_id r, ve_field = ''email'',
                              ve_error_reason = Invalid_email_format (email r)\<rparr>) invalid_email_rows;
            st1 = (\<lparr>columns = cols, rows = filter valid_emails deduped\<rparr>, errors1);
            st2 = check_date_col ''start_date'' start_date (\<lambda>c r. r\<lparr>start_date := c\<rparr>) True st1;
            st3 = check_date_col ''end_date'' end_date (\<lambda>c r. r\<lparr>end_date := c\<rparr>) False st2;
            st4 = check_date_col ''last_updated'' last_updated (\<lambda>c r. r\<lparr>last_updated := c\<rparr>) True st3;
            sorted_rows = sort_values (rows (fst st4));
            nulls_before = count_null_titles sorted_rows;
            filled = fill_titles [] sorted_rows;
            nulls_after = count_null_titles filled;
            remaining_nulls = filter (\<lambda>r. title r = None) filled;
            errors5 = snd st4 @ map (\<lambda>r. \<lparr>ve_row_id = row_id r, ve_field = ''title'',
                                       ve_error_reason = Missing_title\<rparr>) remaining_nulls
        in (\<lparr>columns = cols, rows = map fillna_title filled\<rparr>, errors5,
            \<lparr>duplicates_removed = length with_id - length deduped,
             nulls_filled = nulls_before - nulls_after\<rparr>))"

subsection \<open>Enrichment\<close>

text \<open>\<open>row['email'].split('@')[1]\<close>, for an address that holds an \<open>@\<close>: the text
  between the first \<open>@\<close> and the next one.\<close>

definition email_domain :: "string \<Rightarrow> string" where
  "email_domain s =
     takeWhile (\<lambda>c. c \<noteq> CHR ''@'') (tl (dropWhile (\<lambda>c. c \<noteq> CHR ''@'') s))"

text \<open>\<open>get_ein\<close>; \<open>domain_to_ein\<close> is the dictionary of \<open>company_lookup.json\<close>.
  \<open>if inferred\<close> is false on a missing key and on the empty string.\<close>

definition get_ein :: "(string \<Rightarrow> string option) \<Rightarrow> employee \<Rightarrow> string option" where
  "get_ein domain_to_ein row =
     (case company_ein row of
        Some e \<Rightarrow> Some e
      | None \<Rightarrow>
          (case email row of
             None \<Rightarrow> None
           | Some s \<Rightarrow>
               if CHR ''@'' \<notin> set s then None
               else (case domain_to_ein (email_domain s) of
                       None \<Rightarrow> None
                     | Some inferred \<Rightarrow> if inferred \<noteq> [] then Some inferred else None)))"

text \<open>
  The result of one lookup, and the state of the closure \<open>get_enrichment_data\<close>: the
  dictionary \<open>api_cache\<close> (keys in the order they were added) and, for the proofs, the
  list of the keys looked up in the external source \<open>api_mock_data\<close>, one entry per
  lookup, in order.
\<close>

record enrichment =
  e_personal_email :: "string option"
  e_phone_number :: "string option"

definition not_found :: enrichment where
  "not_found = \<lparr>e_personal_email = None, e_phone_number = None\<rparr>"

record api_state =
  api_cache :: "(string option \<times> enrichment) list"
  source_queries :: "string option list"

definition no_calls :: api_state where
  "no_calls = \<lparr>api_cache = [], source_queries = []\<rparr>"

text \<open>The external source: the dictionary of \<open>api_mock.json\<close>, whose keys are
  strings, so that a missing \<open>person_id\<close> is not one of them.\<close>

definition source_lookup :: "(string \<Rightarrow> enrichment option) \<Rightarrow> string option \<Rightarrow> enrichment option" where
  "source_lookup api_mock_data pid = (case pid of None \<Rightarrow> None | Some p \<Rightarrow> api_mock_data p)"

text \<open>
  \<open>get_enrichment_data(person_id, retries)\<close>. The body of the \<open>for\<close> loop returns in
  its first round on both branches (a dictionary lookup raises nothing, so the
  \<open>except\<close> branch and the later rounds are never reached); with \<open>retries = 0\<close> the
  loop is skipped and the last line returns the empty result.
\<close>

definition get_enrichment_data ::
  "nat \<Rightarrow> (string \<Rightarrow> enrichment option) \<Rightarrow> string option \<Rightarrow> api_state \<Rightarrow> enrichment \<times> api_state" where
  "get_enrichment_data retries api_mock_data pid st =
     (case map_of (api_cache st) pid of
        Some cached \<Rightarrow> (cached, st)
      | None \<Rightarrow>
          if retries = 0 then (not_found, st)
          else
            let st' = st\<lparr>source_queries := source_queries st @ [pid]\<rparr>
            in (case source_lookup api_mock_data pid of
                  Some result \<Rightarrow> (result, st'\<lparr>api_cache := api_cache st' @ [(pid, result)]\<rparr>)
                | None \<Rightarrow> (not_found, st')))"

text \<open>\<open>enriched_df['person_id'].apply(get_enrichment_data)\<close>: one call per row, in
  the order of the rows, with the default \<open>retries=3\<close>.\<close>

fun apply_enrichment ::
  "(string \<Rightarrow> enrichment option) \<Rightarrow> string option list \<Rightarrow> api_state \<Rightarrow> enrichment list \<times> api_state" where
  "apply_enrichment api_mock_data [] st = ([], st)"
| "apply_enrichment api_mock_data (pid # pids) st =
     (let (res, st1) = get_enrichment_data 3 api_mock_data pid st;
          (ress, st2) = apply_enrichment api_mock_data pids st1
      in (res # ress, st2))"

text \<open>\<open>reindex(columns=cols)\<close> on a frame: a column that is not kept is gone from every
  row.\<close>

definition project_row :: "string list \<Rightarrow> employee \<Rightarrow> employee" where
  "project_row cols r =
     r\<lparr>person_id := (if ''person_id'' \<in> set cols then person_id r else None),
       full_name := (if ''full_name'' \<in> set cols then full_name r else None),
       title := (if ''title'' \<in> set cols then title r else None),
       email := (if ''email'' \<in> set cols then email r else None),
       company_ein := (if ''company_ein'' \<in> set cols then company_ein r else None),
       start_date := (if ''start_date'' \<in> set cols then start_date r else NaT),
       end_date := (if ''end_date'' \<in> set cols then end_date r else NaT),
       last_updated := (if ''last_updated'' \<in> set cols then last_updated r else NaT),
       notes_col := (if ''notes'' \<in> set cols then notes_col r else None),
       row_id := (if ''row_id'' \<in> set cols then row_id r else None),
       personal_email := (if ''personal_email'' \<in> set cols then personal_email r else None),
       phone_number := (if ''phone_number'' \<in> set cols then phone_number r else None)\<rparr>"

definition FINAL_COLUMNS :: "string list" where
  "FINAL_COLUMNS =
     [''person_id'', ''full_name'', ''title'', ''email'', ''company_ein'', ''start_date'',
      ''notes'', ''row_id'', ''personal_email'', ''phone_number'']"

definition count_null_eins :: "employee list \<Rightarrow> int" where
  "count_null_eins rs = int (length (filter (\<lambda>r. company_ein r = None) rs))"

text \<open>\<open>enrich_data\<close>, returning the state of its lookup closure as a third
  component.\<close>

definition enrich_data_calls ::
  "(string \<Rightarrow> string option) \<Rightarrow> (string \<Rightarrow> enrichment option) \<Rightarrow> dataframe \<Rightarrow>
   dataframe \<times> int \<times> api_state" where
  "enrich_data_calls domain_to_ein api_mock_data df =
     (if df_empty df then (df, 0, no_calls)
      else
        let nulls_before = count_null_eins (rows df);
            with_ein = map (\<lambda>r. r\<lparr>company_ein := get_ein domain_to_ein r\<rparr>) (rows df);
            nulls_after = count_null_eins with_ein;
            (enrichment_results, st) =
               apply_enrichment api_mock_data (map person_id with_ein) no_calls;
            joined = map (\<lambda>(r, e). r\<lparr>personal_email := e_personal_email e,
                                        phone_number := e_phone_number e\<rparr>)
                       (zip (reset_index with_ein) enrichment_results);
            all_cols = add_column ''phone_number'' (add_column ''personal_email'' (columns df));
            final_cols = filter (\<lambda>c. c \<in> set all_cols) FINAL_COLUMNS
        in (\<lparr>columns = final_cols, rows = map (project_row final_cols) joined\<rparr>,
            nulls_before - nulls_after, st))"

definition enrich_data ::
  "(string \<Rightarrow> string option) \<Rightarrow> (string \<Rightarrow> enrichment option) \<Rightarrow> dataframe \<Rightarrow> dataframe \<times> int" where
  "enrich_data domain_to_ein api_mock_data df =
     (case enrich_data_calls domain_to_ein api_mock_data df of (final_df, m, st) \<Rightarrow> (final_df, m))"

subsection \<open>Store merger\<close>

definition CANONICAL_COLUMNS :: "string list" where
  "CANONICAL_COLUMNS =
     [''person_id'', ''full_name'', ''title'', ''email'', ''company_ein'',
      ''start_date'', ''notes'', ''row_id'', ''personal_email'', ''phone_number'']"

text \<open>\<open>to_parquet(index=False)\<close> followed by a later \<open>read_parquet\<close>: the rows with a
  fresh index.\<close>

definition to_parquet :: "dataframe \<Rightarrow> dataframe" where
  "to_parquet df = df\<lparr>rows := reset_index (rows df)\<rparr>"

text \<open>
  The merge branch of \<open>save_outputs\<close>. \<open>list(set(a) | set(b))\<close> has no fixed order;
  the model lists the columns in the order of their first appearance. Columns are only
  added by the alignment, and an added column is empty in every row that gets it.
\<close>

definition store_key :: "employee \<Rightarrow> string option \<times> datecell" where
  "store_key r = (person_id r, start_date r)"

definition merge_store :: "dataframe \<Rightarrow> dataframe \<Rightarrow> dataframe" where
  "merge_store existing_df clean_df =
     (let all_columns = remdups (columns existing_df @ columns clean_df);
          merged_rows = rows existing_df @ rows clean_df;
          final_columns = CANONICAL_COLUMNS @ filter (\<lambda>c. c \<notin> set CANONICAL_COLUMNS) all_columns;
          merged_columns = filter (\<lambda>c. c \<in> set all_columns) final_columns
      in \<lparr>columns = merged_columns,
          rows = keep_last store_key merged_rows\<rparr>)"

definition save_outputs :: "dataframe \<Rightarrow> validation_error list \<Rightarrow> files \<Rightarrow> files \<times> nat" where
  "save_outputs clean_df errors_df fs =
     (let errors_file =
            (if errors_df \<noteq> [] then
               Some ((case validation_errors_file fs of None \<Rightarrow> [] | Some old \<Rightarrow> old) @ errors_df)
             else (case validation_errors_file fs of None \<Rightarrow> Some [] | Some old \<Rightarrow> Some old));
          fs1 = fs\<lparr>validation_errors_file := errors_file\<rparr>
      in case clean_data_file fs of
           Some existing_df \<Rightarrow>
             if \<not> df_empty clean_df then
               let merged_df = merge_store existing_df clean_df
               in (fs1\<lparr>clean_data_file := Some (to_parquet merged_df)\<rparr>, length (rows merged_df))
             else (fs1, length (rows existing_df))
         | None \<Rightarrow>
             if \<not> df_empty clean_df then
               (fs1\<lparr>clean_data_file := Some (to_parquet clean_df)\<rparr>, length (rows clean_df))
             else (fs1\<lparr>clean_data_file := Some (to_parquet clean_df)\<rparr>, 0))"

subsection \<open>The run\<close>

record etl_inputs =
  employees_csv :: dataframe
  plans_csv :: "plan_record list"
  claims_csv :: "claim_record list"
  company_lookup :: "string \<Rightarrow> string option"
  api_mock :: "string \<Rightarrow> enrichment option"

definition run_etl :: "timestamp \<Rightarrow> etl_inputs \<Rightarrow> files \<Rightarrow> etl_error + files" where
  "run_etl now inp fs =
     (let last_run_timestamp = get_high_water_mark fs
      in case ingest_data last_run_timestamp (employees_csv inp) (plans_csv inp) (claims_csv inp) of
           Inl e \<Rightarrow> Inl e
         | Inr (employees_df, plans_df, claims_df) \<Rightarrow>
             if df_empty employees_df \<and> claims_df = [] \<and> plans_df = [] then
               Inr (fs\<lparr>validation_errors_file :=
                        (case validation_errors_file fs of None \<Rightarrow> Some [] | Some old \<Rightarrow> Some old)\<rparr>)
             else
               let (clean_df, errors_df, clean_metrics) = clean_data employees_df;
                   (enriched_df, enrich_metrics) =
                      enrich_data (company_lookup inp) (api_mock inp) clean_df;
                   (fs1, rows_out) = save_outputs enriched_df errors_df fs
               in Inr (update_high_water_mark now fs1))"

section \<open>The analytics queries (src/sql_analysis.py)\<close>

text \<open>
  The three queries of \<open>run_sql_analysis\<close> over the typed tables DuckDB reads. A
  \<open>DATE\<close> is its number of days since 1970-01-01, so that \<open>d + INTERVAL 1 DAY\<close> is
  \<open>d + 1\<close> and \<open>DATEDIFF('day', a, b)\<close> is \<open>b - a\<close>. The claims query computes in
  double precision; the ratio of the roster query is taken exactly. Where SQL leaves the order of rows open (rows that are equal on every
  \<open>ORDER BY\<close> column, the groups of a \<open>GROUP BY\<close>), the model sorts stably and takes
  the groups in the order \<open>remdups\<close> lists their keys.
\<close>

type_synonym date = int

text \<open>The day number of the calendar date \<open>y-m-d\<close> (proleptic Gregorian).\<close>

definition days_from_civil :: "int \<Rightarrow> int \<Rightarrow> int \<Rightarrow> date" where
  "days_from_civil y m d =
     (let y' = (if m \<le> 2 then y - 1 else y);
          era = y' div 400;
          yoe = y' - era * 400;
          doy = (153 * (if m > 2 then m - 3 else m + 9) + 2) div 5 + d - 1;
          doe = yoe * 365 + yoe div 4 - yoe div 100 + doy
      in era * 146097 + doe - 719468)"

definition company_name_mapping :: "(string \<times> string) list" where
  "company_name_mapping =
     [(''11-1111111'', ''Hillwinds Health''),
      (''22-2222222'', ''Summit Solutions''),
      (''33-3333333'', ''Peak Performers'')]"

text \<open>\<open>JOIN company_name_mapping cnm ON x.company_ein = cnm.company_ein\<close>: the
  company names of the mapping rows that join with an identifier.\<close>

definition joined_names :: "string \<Rightarrow> string list" where
  "joined_names ein = map snd (filter (\<lambda>m. fst m = ein) company_name_mapping)"

text \<open>The rows of a table that fall into each group of a key, one list per group.\<close>

definition partition_by :: "('a \<Rightarrow> 'k) \<Rightarrow> 'a list \<Rightarrow> 'a list list" where
  "partition_by key rs = map (\<lambda>k. filter (\<lambda>r. key r = k) rs) (remdups (map key rs))"

subsection \<open>Plan gap detection\<close>

record plan_row =
  plan_company_ein :: string
  plan_type :: string
  carrier_name :: string
  plan_start_date :: "date option"
  plan_end_date :: "date option"

record plans_clean_row =
  company_name :: string
  pc_plan_type :: string
  carrier :: string
  pc_start_date :: date
  pc_end_date :: "date option"

definition plans_clean :: "plan_row list \<Rightarrow> plans_clean_row list" where
  "plans_clean plans_raw =
     concat (map (\<lambda>p. case plan_start_date p of
                         None \<Rightarrow> []
                       | Some sd \<Rightarrow>
                           map (\<lambda>n. \<lparr>company_name = n, pc_plan_type = plan_type p,
                                     carrier = carrier_name p, pc_start_date = sd,
                                     pc_end_date = plan_end_date p\<rparr>)
                             (joined_names (plan_company_ein p)))
                 plans_raw)"

text \<open>
  The inner query of \<open>deduped\<close>, on one partition: the rows in the order of
  \<open>start_date\<close>, each with \<open>LAG(end_date)\<close> of the row before it, and
  \<open>new_group = CASE WHEN start_date <= COALESCE(LAG(end_date) + INTERVAL 1 DAY,
  start_date) THEN 0 ELSE 1 END\<close>.
\<close>

definition new_group_of :: "date \<Rightarrow> date option \<Rightarrow> int" where
  "new_group_of sd lag_end =
     (if sd \<le> (case lag_end of None \<Rightarrow> sd | Some e \<Rightarrow> e + 1) then 0 else 1)"

definition flag_new_groups :: "plans_clean_row list \<Rightarrow> (plans_clean_row \<times> int) list" where
  "flag_new_groups part =
     (let ordered = sort_key pc_start_date part;
          lag_end = None # map pc_end_date (butlast ordered)
      in map (\<lambda>(r, l). (r, new_group_of (pc_start_date r) l)) (zip ordered lag_end))"

text \<open>
  \<open>SUM(new_group) OVER (PARTITION BY ... ORDER BY start_date, end_date)\<close>: with the
  default frame the sum runs over every row of the partition that is not after the
  current row in the order, its peers included; a missing \<open>end_date\<close> sorts last.
\<close>

definition end_key :: "date option \<Rightarrow> nat \<times> int" where
  "end_key e = (case e of None \<Rightarrow> (1, 0) | Some d \<Rightarrow> (0, d))"

definition order_key :: "plans_clean_row \<Rightarrow> int \<times> nat \<times> int" where
  "order_key r = (pc_start_date r, end_key (pc_end_date r))"

definition grp_of :: "(plans_clean_row \<times> int) list \<Rightarrow> plans_clean_row \<Rightarrow> int" where
  "grp_of flagged r =
     sum_list (map snd (filter (\<lambda>(r', g). order_key r' \<le> order_key r) flagged))"

definition deduped :: "plans_clean_row list \<Rightarrow> (plans_clean_row \<times> int) list" where
  "deduped part =
     (let flagged = flag_new_groups part
      in map (\<lambda>(r, g). (r, grp_of flagged r)) flagged)"

record island =
  i_company_name :: string
  i_plan_type :: string
  island_start :: date
  island_end :: "date option"
  carrier_during_island :: string

text \<open>\<open>MAX(end_date)\<close> skips the missing values and is missing when there is no
  other.\<close>

definition max_end :: "date option list \<Rightarrow> date option" where
  "max_end es = (case List.map_filter id es of [] \<Rightarrow> None | d # ds \<Rightarrow> Some (fold max ds d))"

text \<open>One row of \<open>islands\<close>, from the rows of one group (never empty).\<close>

definition island_of :: "plans_clean_row list \<Rightarrow> island" where
  "island_of g =
     \<lparr>i_company_name = company_name (hd g), i_plan_type = pc_plan_type (hd g),
      island_start = min_list (map pc_start_date g),
      island_end = max_end (map pc_end_date g),
      carrier_during_island = min_list (map carrier g)\<rparr>"

definition islands :: "plans_clean_row list \<Rightarrow> island list" where
  "islands part =
     map (\<lambda>g. island_of (map fst g)) (partition_by snd (deduped part))"

record with_next_row =
  w_island :: island
  next_start :: "date option"
  next_carrier :: "string option"

text \<open>\<open>LEAD\<close> over the islands of one partition in the order of \<open>island_start\<close>.\<close>

fun lead_rows :: "island list \<Rightarrow> with_next_row list" where
  "lead_rows [] = []"
| "lead_rows [i] = [\<lparr>w_island = i, next_start = None, next_carrier = None\<rparr>]"
| "lead_rows (i # j # rest) =
     \<lparr>w_island = i, next_start = Some (island_start j),
      next_carrier = Some (carrier_during_island j)\<rparr> # lead_rows (j # rest)"

definition with_next :: "plan_row list \<Rightarrow> with_next_row list" where
  "with_next plans_raw =
     concat (map (\<lambda>part. lead_rows (sort_key island_start (islands part)))
               (partition_by (\<lambda>r. (company_name r, pc_plan_type r)) (plans_clean plans_raw)))"

record gap_row =
  g_company_name :: string
  gap_start :: date
  gap_end :: date
  gap_length_days :: int
  previous_carrier :: string
  g_next_carrier :: "string option"

text \<open>The \<open>SELECT\<close> list of the final query, for a row whose \<open>island_end\<close> is
  \<open>ie\<close> and whose \<open>next_start\<close> is \<open>ns\<close>.\<close>

definition select_gap :: "with_next_row \<Rightarrow> date \<Rightarrow> date \<Rightarrow> gap_row" where
  "select_gap w ie ns =
     \<lparr>g_company_name = i_company_name (w_island w),
      gap_start = ie + 1,
      gap_end = ns - 1,
      gap_length_days = (ns - 1) - (ie + 1),
      previous_carrier = carrier_during_island (w_island w),
      g_next_carrier = next_carrier w\<rparr>"

text \<open>The \<open>WHERE\<close> clause of the final query, \<open>next_start IS NOT NULL AND
  DATEDIFF('day', island_end, next_start) > 7\<close>, and the row it lets through; a
  comparison with a missing value is not true.\<close>

definition final_gap_row :: "with_next_row \<Rightarrow> gap_row option" where
  "final_gap_row w =
     (case next_start w of
        None \<Rightarrow> None
      | Some ns \<Rightarrow>
          (case island_end (w_island w) of
             None \<Rightarrow> None
           | Some ie \<Rightarrow> if ns - ie > 7 then Some (select_gap w ie ns) else None))"

definition plan_gaps_query :: "plan_row list \<Rightarrow> gap_row list" where
  "plan_gaps_query plans_raw =
     sort_key (\<lambda>g. (g_company_name g, gap_start g))
       (List.map_filter final_gap_row (with_next plans_raw))"

subsection \<open>Double precision\<close>

text \<open>
  DuckDB reads a column of decimal numbers as \<open>DOUBLE\<close> and computes sums, differences,
  products and quotients of it in IEEE 754 binary64 arithmetic. A finite double is the
  rational number it stands for; each operation is the exact operation followed by
  rounding to the nearest double, a tie to the even significand. The range of exponents
  is bounded below (gradual underflow) and not above: the model does not cover overflow
  to infinity. A column of whole numbers is read as \<open>BIGINT\<close> and summed exactly, which
  gives the same sums as long as they stay below \<open>2\<^sup>5\<^sup>3\<close>; the quotient of the final
  query is a double division in both cases.
\<close>

text \<open>\<open>\<lfloor>log\<^sub>2 x\<rfloor>\<close> for a positive \<open>x\<close>, and \<open>2\<^sup>k\<close> for an integer \<open>k\<close>.\<close>

definition floor_log2 :: "rat \<Rightarrow> int" where
  "floor_log2 x = (if 1 \<le> x then bitlen \<lfloor>x\<rfloor> - 1 else - bitlen (\<lceil>1 / x\<rceil> - 1))"

definition two_to :: "int \<Rightarrow> rat" where
  "two_to k = (if 0 \<le> k then 2 ^ nat k else 1 / 2 ^ nat (- k))"

definition round_half_even :: "rat \<Rightarrow> int" where
  "round_half_even m =
     (let n = \<lfloor>m\<rfloor>; f = m - of_int n
      in if f < 1 / 2 then n else if 1 / 2 < f then n + 1 else if even n then n else n + 1)"

text \<open>The double nearest to a rational: a significand of 53 bits, the least exponent
  \<open>-1074\<close>.\<close>

definition to_double :: "rat \<Rightarrow> rat" where
  "to_double x =
     (if x = 0 then 0
      else let e = max (floor_log2 \<bar>x\<bar> - 52) (- 1074)
           in sgn x * of_int (round_half_even (\<bar>x\<bar> / two_to e)) * two_to e)"

definition double_add :: "rat \<Rightarrow> rat \<Rightarrow> rat" where
  "double_add x y = to_double (x + y)"

definition double_sub :: "rat \<Rightarrow> rat \<Rightarrow> rat" where
  "double_sub x y = to_double (x - y)"

definition double_mul :: "rat \<Rightarrow> rat \<Rightarrow> rat" where
  "double_mul x y = to_double (x * y)"

definition double_div :: "rat \<Rightarrow> rat \<Rightarrow> rat" where
  "double_div x y = to_double (x / y)"

text \<open>\<open>SUM\<close> over doubles adds the values one after the other; the first value is
  taken as it is (\<open>0.0 + x\<close> is \<open>x\<close>). SQL does not fix the order of the additions,
  on which the last bits of a sum of three or more doubles depend; the model adds in the
  order of the rows.\<close>

fun double_sum :: "rat list \<Rightarrow> rat" where
  "double_sum [] = 0"
| "double_sum (x # xs) = foldl double_add x xs"

text \<open>
  \<open>ROUND(x, 2)\<close> on a double is \<open>std::round(x * 100.0) / 100.0\<close>: the product and the
  quotient are double operations, and \<open>std::round\<close> gives the nearest whole number, a
  tie away from zero.
\<close>

definition round_half_away :: "rat \<Rightarrow> int" where
  "round_half_away y = (if 0 \<le> y then \<lfloor>y + 1 / 2\<rfloor> else - \<lfloor>- y + 1 / 2\<rfloor>)"

definition round_double :: "rat \<Rightarrow> rat" where
  "round_double x = double_div (of_int (round_half_away (double_mul x 100))) 100"

subsection \<open>Claims cost spike\<close>

text \<open>A row of \<open>claims_raw.csv\<close>; \<open>amount\<close> is the decimal number written in the
  file, which the view reads as the nearest double.\<close>

record claim_row =
  claim_company_ein :: string
  service_date :: date
  amount :: rat

record daily_cost =
  d_company_name :: string
  d_service_date :: date
  total_daily_cost :: rat

definition claims_with_company :: "claim_row list \<Rightarrow> (string \<times> date \<times> rat) list" where
  "claims_with_company claims_raw =
     concat (map (\<lambda>c. map (\<lambda>n. (n, service_date c, to_double (amount c)))
                         (joined_names (claim_company_ein c)))
               claims_raw)"

definition daily_costs :: "claim_row list \<Rightarrow> daily_cost list" where
  "daily_costs claims_raw =
     map (\<lambda>g. \<lparr>d_company_name = fst (hd g), d_service_date = fst (snd (hd g)),
               total_daily_cost = double_sum (map (\<lambda>c. snd (snd c)) g)\<rparr>)
       (partition_by (\<lambda>c. (fst c, fst (snd c))) (claims_with_company claims_raw))"

text \<open>
  \<open>rolling_90d\<close> and \<open>rolling_windows\<close> on one partition, in the order of
  \<open>service_date\<close>: the sum over the current row and the 89 rows before it, and that
  sum of the row before (\<open>LAG\<close>), which the first row does not have.
\<close>

record rolling_window =
  rw_company_name :: string
  rw_window_end :: date
  rw_window_start :: date
  current_90d_cost :: rat
  prev_90d_cost :: "rat option"

definition rolling_90d_cost :: "daily_cost list \<Rightarrow> nat \<Rightarrow> rat" where
  "rolling_90d_cost ordered i =
     double_sum (map total_daily_cost (drop (Suc i - 90) (take (Suc i) ordered)))"

definition rolling_windows_of :: "daily_cost list \<Rightarrow> rolling_window list" where
  "rolling_windows_of part =
     (let ordered = sort_key d_service_date part
      in map (\<lambda>i. \<lparr>rw_company_name = d_company_name (ordered ! i),
                   rw_window_end = d_service_date (ordered ! i),
                   rw_window_start = d_service_date (ordered ! i) - 89,
                   current_90d_cost = rolling_90d_cost ordered i,
                   prev_90d_cost = (if i = 0 then None
                                    else Some (rolling_90d_cost ordered (i - 1)))\<rparr>)
           [0..<length ordered])"

definition rolling_windows :: "claim_row list \<Rightarrow> rolling_window list" where
  "rolling_windows claims_raw =
     concat (map rolling_windows_of (partition_by d_company_name (daily_costs claims_raw)))"

record spike_row =
  s_company_name :: string
  window_start :: date
  window_end :: date
  s_prev_90d_cost :: rat
  s_current_90d_cost :: rat
  pct_change :: "rat option"

text \<open>The ratio \<open>(current_90d_cost - prev_90d_cost) / prev_90d_cost\<close> of the final
  query, a double subtraction followed by a double division.\<close>

definition relative_increase :: "rat \<Rightarrow> rat \<Rightarrow> rat" where
  "relative_increase prev cur = double_div (double_sub cur prev) prev"

text \<open>\<open>ROUND(CASE WHEN prev_90d_cost = 0 THEN NULL ELSE (current_90d_cost -
  prev_90d_cost) / prev_90d_cost * 100 END, 2)\<close>.\<close>

definition pct_change_of :: "rat \<Rightarrow> rat \<Rightarrow> rat option" where
  "pct_change_of prev cur =
     (if prev = 0 then None
      else Some (round_double (double_mul (relative_increase prev cur) 100)))"

text \<open>The \<open>WHERE\<close> clause of the final query, \<open>prev_90d_cost IS NOT NULL AND
  prev_90d_cost > 0 AND (current_90d_cost - prev_90d_cost) / prev_90d_cost > 2.0\<close>, and
  the row it lets through.\<close>

definition final_spike_row :: "rolling_window \<Rightarrow> spike_row option" where
  "final_spike_row w =
     (case prev_90d_cost w of
        None \<Rightarrow> None
      | Some prev \<Rightarrow>
          if prev > 0 \<and> relative_increase prev (current_90d_cost w) > 2
          then Some \<lparr>s_company_name = rw_company_name w,
                     window_start = rw_window_start w,
                     window_end = rw_window_end w,
                     s_prev_90d_cost = prev,
                     s_current_90d_cost = current_90d_cost w,
                     pct_change = pct_change_of prev (current_90d_cost w)\<rparr>
          else None)"

definition claims_spike_query :: "claim_row list \<Rightarrow> spike_row list" where
  "claims_spike_query claims_raw =
     sort_key (\<lambda>r. (s_company_name r, window_end r))
       (List.map_filter final_spike_row (rolling_windows claims_raw))"

subsection \<open>Employee roster mismatch\<close>

definition company_expected_counts :: "(string \<times> int) list" where
  "company_expected_counts =
     [(''Hillwinds Health'', 60), (''Summit Solutions'', 45), (''Peak Performers'', 40)]"

text \<open>\<open>observed_employee_counts\<close> over the rows of \<open>employees_raw\<close>:
  \<open>COUNT(DISTINCT person_id)\<close> skips the missing values, and a missing
  \<open>company_ein\<close> joins with nothing.\<close>

definition employees_with_company :: "employee list \<Rightarrow> (string \<times> string option) list" where
  "employees_with_company employees_raw =
     concat (map (\<lambda>e. case company_ein e of
                         None \<Rightarrow> []
                       | Some ein \<Rightarrow> map (\<lambda>n. (n, person_id e)) (joined_names ein))
               employees_raw)"

definition count_distinct :: "string option list \<Rightarrow> int" where
  "count_distinct ps = int (length (remdups (List.map_filter id ps)))"

definition observed_employee_counts :: "employee list \<Rightarrow> (string \<times> int) list" where
  "observed_employee_counts employees_raw =
     map (\<lambda>g. (fst (hd g), count_distinct (map snd g)))
       (partition_by fst (employees_with_company employees_raw))"

record roster_row =
  r_company_name :: string
  expected :: int
  observed :: int
  pct_diff :: rat
  severity :: string

text \<open>\<open>ROUND(x, 2)\<close> on an exact ratio: to the nearest hundredth, a tie away from
  zero.\<close>

definition round2 :: "rat \<Rightarrow> rat" where
  "round2 x =
     (if 0 \<le> x then of_int \<lfloor>x * 100 + 1 / 2\<rfloor> / 100
      else - (of_int \<lfloor>- x * 100 + 1 / 2\<rfloor> / 100))"

text \<open>\<open>ROUND(ABS(observed - expected) * 100.0 / expected, 2)\<close> and the \<open>CASE\<close> of
  the final query.\<close>

definition pct_diff_of :: "int \<Rightarrow> int \<Rightarrow> rat" where
  "pct_diff_of exp_n obs_n = round2 (of_int (\<bar>obs_n - exp_n\<bar>) * 100 / of_int exp_n)"

definition severity_of :: "rat \<Rightarrow> string" where
  "severity_of p =
     (if p > 100 then ''Critical''
      else if p > 50 then ''High''
      else if p > 20 then ''Medium''
      else ''Low'')"

definition comparison :: "employee list \<Rightarrow> (string \<times> int \<times> int \<times> rat) list" where
  "comparison employees_raw =
     concat (map (\<lambda>cec. map (\<lambda>oec. (fst cec, snd cec, snd oec, pct_diff_of (snd cec) (snd oec)))
                          (filter (\<lambda>oec. fst oec = fst cec) (observed_employee_counts employees_raw)))
               company_expected_counts)"

definition roster_mismatch_query :: "employee list \<Rightarrow> roster_row list" where
  "roster_mismatch_query employees_raw =
     sort_key (\<lambda>r. - pct_diff r)
       (map (\<lambda>(n, e, ob, p). \<lparr>r_company_name = n, expected = e, observed = ob, pct_diff = p,
                               severity = severity_of p\<rparr>)
          (comparison employees_raw))"

section \<open>Example inputs\<close>

text \<open>Equality of two rows in every column, whatever their index labels.\<close>

definition same_values :: "employee \<Rightarrow> employee \<Rightarrow> bool" where
  "same_values r r' = (r\<lparr>idx := 0\<rparr> = r'\<lparr>idx := 0\<rparr>)"

definition blank_row :: employee where
  "blank_row =
     \<lparr>idx = 0, person_id = None, full_name = None, title = None, email = None,
      company_ein = None, start_date = NaT, end_date = NaT, last_updated = NaT,
      notes_col = None, row_id = None, personal_email = None, phone_number = None\<rparr>"

text \<open>The columns of \<open>employees_raw.csv\<close> (it has no \<open>last_updated\<close>, as the comment
  in \<open>clean_data\<close> says).\<close>

definition raw_columns :: "string list" where
  "raw_columns =
     [''person_id'', ''full_name'', ''title'', ''email'', ''company_ein'', ''start_date'',
      ''end_date'', ''notes'']"

definition old_employee :: employee where
  "old_employee =
     blank_row\<lparr>person_id := Some ''p1'', email := Some ''ann@hill.com'',
               title := Some ''Engineer'', start_date := Date 900\<rparr>"

definition new_employee :: employee where
  "new_employee =
     blank_row\<lparr>person_id := Some ''p2'', email := Some ''bob@hill.com'',
               title := Some ''Analyst'', start_date := Date 1500\<rparr>"

definition old_plan :: plan_record where
  "old_plan =
     \<lparr>pr_company_ein = Some ''11-1111111'', pr_plan_type = Some ''Medical'',
      pr_carrier_name = Some ''Acme'', pr_start_date = Date 500, pr_end_date = Date 700\<rparr>"

definition old_claim :: claim_record where
  "old_claim =
     \<lparr>cr_company_ein = Some ''11-1111111'', cr_service_date = Date 800, cr_amount = Some 10\<rparr>"

definition new_claim :: claim_record where
  "new_claim =
     \<lparr>cr_company_ein = Some ''11-1111111'', cr_service_date = Date 1200, cr_amount = Some 10\<rparr>"

text \<open>A state left by an earlier run (watermark 1000, one stored row), and input files
  in which no date is later than that watermark.\<close>

definition store0 :: dataframe where
  "store0 = \<lparr>columns = FINAL_COLUMNS, rows = [old_employee\<lparr>row_id := Some 0\<rparr>]\<rparr>"

definition files0 :: files where
  "files0 =
     \<lparr>watermark = Some 1000, clean_data_file = Some store0, validation_errors_file = Some []\<rparr>"

definition inputs0 :: etl_inputs where
  "inputs0 =
     \<lparr>employees_csv = \<lparr>columns = raw_columns, rows = [old_employee]\<rparr>,
      plans_csv = [old_plan], claims_csv = [old_claim],
      company_lookup = (\<lambda>d. None), api_mock = (\<lambda>p. None)\<rparr>"

text \<open>A cleaned relation with two rows of one person, whom the enrichment source does
  not know.\<close>

definition two_rows_one_person :: dataframe where
  "two_rows_one_person =
     \<lparr>columns = raw_columns @ [''row_id''],
      rows = [blank_row\<lparr>person_id := Some ''p9'', email := Some ''x@hill.com'',
                        title := Some ''Engineer'', start_date := Date 100, row_id := Some 0\<rparr>,
              blank_row\<lparr>idx := 1, person_id := Some ''p9'', email := Some ''x@hill.com'',
                        title := Some ''Manager'', start_date := Date 200, row_id := Some 1\<rparr>]\<rparr>"

text \<open>Two plans of one organization and plan type: the first covers 2023-01-01 to
  2023-01-31, the second is given by its dates.\<close>

definition plan_a :: plan_row where
  "plan_a =
     \<lparr>plan_company_ein = ''11-1111111'', plan_type = ''Medical'', carrier_name = ''Acme'',
      plan_start_date = Some (days_from_civil 2023 1 1),
      plan_end_date = Some (days_from_civil 2023 1 31)\<rparr>"

definition plan_b :: "date \<Rightarrow> date \<Rightarrow> plan_row" where
  "plan_b s e =
     \<lparr>plan_company_ein = ''11-1111111'', plan_type = ''Medical'', carrier_name = ''Best'',
      plan_start_date = Some s, plan_end_date = Some e\<rparr>"

text \<open>A store with one row and an incoming relation whose row has the same key and
  another title.\<close>

definition upsert_files :: files where
  "upsert_files = files0"

definition upsert_incoming :: dataframe where
  "upsert_incoming =
     \<lparr>columns = FINAL_COLUMNS,
      rows = [old_employee\<lparr>row_id := Some 0, title := Some ''Manager''\<rparr>]\<rparr>"

text \<open>Two ingested employees, the second without an address.\<close>

definition null_email_frame :: dataframe where
  "null_email_frame =
     \<lparr>columns = raw_columns, rows = [old_employee, new_employee\<lparr>idx := 1, email := None\<rparr>]\<rparr>"

text \<open>A first run (no file exists yet) whose one employee row has a malformed
  address.\<close>

definition no_files :: files where
  "no_files = \<lparr>watermark = None, clean_data_file = None, validation_errors_file = None\<rparr>"

definition rejected_inputs :: etl_inputs where
  "rejected_inputs =
     \<lparr>employees_csv = \<lparr>columns = raw_columns, rows = [old_employee\<lparr>email := Some ''bad''\<rparr>]\<rparr>,
      plans_csv = [], claims_csv = [],
      company_lookup = (\<lambda>d. None), api_mock = (\<lambda>p. None)\<rparr>"

text \<open>A claim of Hillwinds Health, and \<open>n\<close> employees of Hillwinds Health with \<open>n\<close>
  different identifiers.\<close>

definition claim_on :: "date \<Rightarrow> rat \<Rightarrow> claim_row" where
  "claim_on d a = \<lparr>claim_company_ein = ''11-1111111'', service_date = d, amount = a\<rparr>"

definition staff :: "nat \<Rightarrow> employee list" where
  "staff n =
     map (\<lambda>i. blank_row\<lparr>idx := i, person_id := Some (replicate (Suc i) CHR ''x''),
                          company_ein := Some ''11-1111111''\<rparr>) [0..<n]"

text \<open>
  The state of the lookup closure is consistent for the keys the source knows: such a
  key has been looked up in the source at most once, and once it has been looked up it is
  in the cache.
\<close>

definition cache_ok :: "(string \<Rightarrow> enrichment option) \<Rightarrow> api_state \<Rightarrow> bool" where
  "cache_ok api st =
     (\<forall>k. source_lookup api k \<noteq> None \<longrightarrow>
        count_list (source_queries st) k \<le> 1
        \<and> (k \<in> set (source_queries st) \<longrightarrow> map_of (api_cache st) k \<noteq> None))"

text \<open>An enriched relation with two rows of one key \<open>(person_id, start_date)\<close> and
  different addresses.\<close>

definition same_key_twice :: dataframe where
  "same_key_twice =
     \<lparr>columns = FINAL_COLUMNS,
      rows = [old_employee\<lparr>row_id := Some 0\<rparr>,
              old_employee\<lparr>idx := 1, row_id := Some 1, email := Some ''ann@summit.com''\<rparr>]\<rparr>"

text \<open>A claim of Summit Solutions; one claim of Hillwinds Health on each of \<open>n\<close>
  days in a row from day \<open>d0\<close>, with amount \<open>a i\<close> on day \<open>i\<close>; and, for such a
  series, the trailing sum the spec describes: the double sum of the amounts of day \<open>i\<close>
  and of the 89 days before it, as far as there are any.\<close>

definition summit_claim :: "date \<Rightarrow> rat \<Rightarrow> claim_row" where
  "summit_claim d a = \<lparr>claim_company_ein = ''22-2222222'', service_date = d, amount = a\<rparr>"

definition daily_series :: "(nat \<Rightarrow> rat) \<Rightarrow> nat \<Rightarrow> date \<Rightarrow> claim_row list" where
  "daily_series a n d0 = map (\<lambda>i. claim_on (d0 + int i) (a i)) [0..<n]"

definition window_sum :: "(nat \<Rightarrow> rat) \<Rightarrow> nat \<Rightarrow> rat" where
  "window_sum a i = double_sum (map (\<lambda>j. to_double (a j)) [Suc i - 90..<Suc i])"

section \<open>Properties of the pipeline\<close>

subsection \<open>Duplicates and index labels\<close>

lemma set_keep_first: "set (keep_first key seen xs) \<subseteq> set xs"
  by (induction xs arbitrary: seen) auto

lemma set_keep_last: "set (keep_last key xs) \<subseteq> set xs"
  by (induction xs) auto

lemma distinct_keep_last: "distinct (map key (keep_last key xs))"
proof (induction xs)
  case Nil
  then show ?case by simp
next
  case (Cons x xs)
  have "key x \<notin> key ` set xs \<Longrightarrow> key x \<notin> key ` set (keep_last key xs)"
    using set_keep_last [of key xs] by auto
  with Cons show ?case by simp
qed

lemma last_in_keep_last:
  "k \<in> key ` set xs \<Longrightarrow> last (filter (\<lambda>y. key y = k) xs) \<in> set (keep_last key xs)"
proof (induction xs)
  case Nil
  then show ?case by simp
next
  case (Cons a xs)
  show ?case
  proof (cases "k \<in> key ` set xs")
    case True
    then have ne: "filter (\<lambda>y. key y = k) xs \<noteq> []"
      by (auto simp: filter_empty_conv)
    then have "last (filter (\<lambda>y. key y = k) (a # xs)) = last (filter (\<lambda>y. key y = k) xs)"
      by simp
    moreover have "last (filter (\<lambda>y. key y = k) xs) \<in> set (keep_last key xs)"
      using Cons.IH True by simp
    ultimately show ?thesis by simp
  next
    case False
    with Cons.prems have ka: "key a = k" by auto
    from False have "filter (\<lambda>y. key y = k) xs = []"
      by (auto simp: filter_empty_conv)
    with ka False show ?thesis by simp
  qed
qed

lemma map_reset_index:
  "map (\<lambda>r. f (r\<lparr>idx := 0\<rparr>)) (reset_index rs) = map (\<lambda>r. f (r\<lparr>idx := 0\<rparr>)) rs"
proof -
  have "map (\<lambda>r. f (r\<lparr>idx := 0\<rparr>)) (map (\<lambda>(i, r). r\<lparr>idx := i\<rparr>) (enumerate n rs))
          = map (\<lambda>r. f (r\<lparr>idx := 0\<rparr>)) rs" for n
    by (induction rs arbitrary: n) simp_all
  then show ?thesis by (simp add: reset_index_def)
qed

lemma store_key_reset_index: "map store_key (reset_index rs) = map store_key rs"
proof -
  have "store_key = (\<lambda>r. store_key (r\<lparr>idx := 0\<rparr>))"
    by (simp add: fun_eq_iff store_key_def)
  then show ?thesis
    using map_reset_index [of store_key rs] by simp
qed

lemma reset_index_same_values:
  assumes "l \<in> set rs"
  shows "\<exists>r' \<in> set (reset_index rs). same_values r' l"
proof -
  have "l\<lparr>idx := 0\<rparr> \<in> set (map (\<lambda>r. r\<lparr>idx := 0\<rparr>) rs)"
    using assms by simp
  also have "map (\<lambda>r. r\<lparr>idx := 0\<rparr>) rs = map (\<lambda>r. r\<lparr>idx := 0\<rparr>) (reset_index rs)"
    using map_reset_index [of "\<lambda>r. r" rs] by simp
  finally show ?thesis
    by (auto simp: same_values_def)
qed

subsection \<open>The stages of a run\<close>

lemma clean_data_empty: "df_empty df \<Longrightarrow> clean_data df = (empty_frame, [], \<lparr>duplicates_removed = 0, nulls_filled = 0\<rparr>)"
  by (simp add: clean_data_def)

lemma enrich_data_empty: "df_empty df \<Longrightarrow> fst (enrich_data d a df) = df"
  by (simp add: enrich_data_def enrich_data_calls_def)

lemma enrich_data_columns:
  "\<not> df_empty df \<Longrightarrow> set (columns (fst (enrich_data d a df))) \<subseteq> set FINAL_COLUMNS"
  by (auto simp: enrich_data_def enrich_data_calls_def Let_def split: prod.splits)

lemma merge_store_columns:
  "set (columns (merge_store existing_df clean_df))
     \<subseteq> set (columns existing_df) \<union> set (columns clean_df)"
  by (auto simp: merge_store_def Let_def)

lemma save_outputs_store:
  "clean_data_file (fst (save_outputs clean_df errors_df fs)) =
     (case clean_data_file fs of
        Some existing_df \<Rightarrow>
          if df_empty clean_df then Some existing_df
          else Some (to_parquet (merge_store existing_df clean_df))
      | None \<Rightarrow> Some (to_parquet clean_df))"
  by (simp add: save_outputs_def Let_def split: option.splits)

lemma columns_to_parquet: "columns (to_parquet df) = columns df"
  by (simp add: to_parquet_def)

lemma run_etl_result:
  assumes "ingest_data (get_high_water_mark fs) (employees_csv inp) (plans_csv inp) (claims_csv inp)
             = Inr (employees_df, plans_df, claims_df)"
  shows "run_etl now inp fs =
     (if df_empty employees_df \<and> claims_df = [] \<and> plans_df = [] then
        Inr (fs\<lparr>validation_errors_file :=
                 (case validation_errors_file fs of None \<Rightarrow> Some [] | Some old \<Rightarrow> Some old)\<rparr>)
      else Inr (update_high_water_mark now
             (fst (save_outputs
                (fst (enrich_data (company_lookup inp) (api_mock inp) (fst (clean_data employees_df))))
                (fst (snd (clean_data employees_df))) fs))))"
  using assms by (simp add: run_etl_def Let_def split: prod.splits)

text \<open>
  What a run does when the reader finds no employee row later than the watermark and a
  store exists: the store stays as it is, and the watermark stays only if the claims
  found and the plans table are empty as well; otherwise it becomes the time of the run.
\<close>

lemma rerun_keeps_store:
  assumes ing: "ingest_data (get_high_water_mark fs) (employees_csv inp) (plans_csv inp) (claims_csv inp)
             = Inr (employees_df, plans_df, claims_df)"
    and none: "df_empty employees_df"
    and store: "clean_data_file fs = Some s"
  shows "\<exists>fs'. run_etl now inp fs = Inr fs' \<and> clean_data_file fs' = Some s
           \<and> watermark fs' = (if claims_df = [] \<and> plans_df = [] then watermark fs else Some now)"
proof (cases "claims_df = [] \<and> plans_df = []")
  case True
  with none store show ?thesis
    by (simp add: run_etl_result [OF ing])
next
  case False
  have e: "fst (enrich_data (company_lookup inp) (api_mock inp) (fst (clean_data employees_df)))
             = empty_frame"
    using none by (simp add: clean_data_empty enrich_data_empty df_empty_def empty_frame_def)
  have "df_empty empty_frame"
    by (simp add: df_empty_def empty_frame_def)
  with False store show ?thesis
    by (auto simp: run_etl_result [OF ing] e save_outputs_store update_high_water_mark_def)
qed

subsection \<open>The reader and the watermark\<close>

text \<open>What the reader returns when every date cell parses: the employees later than
  the watermark by \<open>start_date\<close>, the claims later than it by \<open>service_date\<close>, and
  the plans table as it was read.\<close>

lemma ingest_data_filters:
  assumes "\<not> list_ex (\<lambda>r. is_unparsed (start_date r)) (rows emp)"
    and "\<not> list_ex (\<lambda>c. is_unparsed (cr_service_date c)) cls"
  shows "ingest_data w emp pls cls =
     Inr (emp\<lparr>rows := filter (\<lambda>r. \<exists>t. start_date r = Date t \<and> w < t)
                           (reset_index (rows emp))\<rparr>,
          pls,
          filter (\<lambda>c. \<exists>t. cr_service_date c = Date t \<and> w < t) cls)"
proof -
  have l: "later_than w c = (\<exists>t. c = Date t \<and> w < t)" for c
    by (cases c) simp_all
  have m: "map (\<lambda>r. is_unparsed (start_date r)) (reset_index (rows emp))
             = map (\<lambda>r. is_unparsed (start_date r)) (rows emp)"
    using map_reset_index [of "\<lambda>r. is_unparsed (start_date r)" "rows emp"] by simp
  have e: "list_ex P xs = (True \<in> set (map P xs))" for P :: "employee \<Rightarrow> bool" and xs
    by (auto simp: list_ex_iff)
  have "\<not> list_ex (\<lambda>r. is_unparsed (start_date r)) (reset_index (rows emp))"
    using assms(1) unfolding e m .
  with assms(2) show ?thesis
    by (simp add: ingest_data_def Let_def l)
qed

text \<open>
  Claim C4 says that the reader returns, for each of the three tables, exactly the rows
  whose date is later than the watermark, and no table unfiltered. \<open>ingest_data\<close>
  filters the employees on \<open>start_date\<close> and the claims on \<open>service_date\<close>, and returns
  the plans as read: with watermark 1000, the plan that starts at 500 is returned, next
  to the one employee and the one claim that are later than 1000.
\<close>

theorem ingest_data_returns_plans_unfiltered:
  "ingest_data 1000 \<lparr>columns = raw_columns, rows = [old_employee, new_employee]\<rparr>
       [old_plan] [old_claim, new_claim]
     = Inr (\<lparr>columns = raw_columns, rows = [new_employee\<lparr>idx := 1\<rparr>]\<rparr>, [old_plan], [new_claim])
   \<and> pr_start_date old_plan = Date 500
   \<and> \<not> later_than 1000 (pr_start_date old_plan)"
  by (simp add: ingest_data_def reset_index_def old_employee_def new_employee_def blank_row_def
        old_plan_def old_claim_def new_claim_def)

text \<open>
  Claim C1 says that a second run over input in which no row is later than the committed
  watermark leaves the store and the watermark as they are. On \<open>inputs0\<close> (every date at
  most 900, watermark 1000) the run at time 2000 keeps the store and the error ledger
  and overwrites the watermark with 2000: the plans table is not empty, so the
  no-new-data exit of \<open>run_etl\<close> is not taken.
\<close>

theorem rerun_overwrites_watermark:
  "run_etl 2000 inputs0 files0 = Inr (files0\<lparr>watermark := Some 2000\<rparr>)
   \<and> watermark files0 = Some 1000
   \<and> clean_data_file (files0\<lparr>watermark := Some 2000\<rparr>) = clean_data_file files0"
  by (simp add: run_etl_def inputs0_def files0_def get_high_water_mark_def ingest_data_def
        reset_index_def old_employee_def blank_row_def old_plan_def old_claim_def df_empty_def
        clean_data_def enrich_data_def enrich_data_calls_def empty_frame_def save_outputs_def
        update_high_water_mark_def)

subsection \<open>The lookup cache\<close>

text \<open>
  Claim C2 says that the enrichment source is queried at most once for each
  \<open>person_id\<close>, also for one the source does not know. \<open>get_enrichment_data\<close> stores a
  result in \<open>api_cache\<close> only when the source knows the key: for the two rows of person
  \<open>p9\<close>, unknown to the source, the source is queried twice and the cache stays empty.
\<close>

theorem unknown_person_queried_for_every_row:
  "source_queries (snd (snd (enrich_data_calls (\<lambda>d. None) (\<lambda>p. None) two_rows_one_person)))
     = [Some ''p9'', Some ''p9'']
   \<and> api_cache (snd (snd (enrich_data_calls (\<lambda>d. None) (\<lambda>p. None) two_rows_one_person))) = []
   \<and> map person_id (rows two_rows_one_person) = [Some ''p9'', Some ''p9'']"
  by (simp add: enrich_data_calls_def two_rows_one_person_def df_empty_def raw_columns_def
        blank_row_def get_enrichment_data_def no_calls_def source_lookup_def Let_def)

text \<open>For a person the source knows, the cache does what claim C2 says: whatever the
  rows are, the source is queried at most once for that person.\<close>

lemma cache_ok_step:
  assumes "cache_ok api st"
  shows "cache_ok api (snd (get_enrichment_data 3 api pid st))"
proof (cases "map_of (api_cache st) pid")
  case (Some c)
  with assms show ?thesis by (simp add: get_enrichment_data_def)
next
  case None
  show ?thesis
  proof (cases "source_lookup api pid")
    case N: None
    with None assms show ?thesis
      by (auto simp: get_enrichment_data_def cache_ok_def Let_def)
  next
    case (Some res)
    have nq: "pid \<notin> set (source_queries st)"
      using assms None Some by (auto simp: cache_ok_def)
    then have "count_list (source_queries st) pid = 0"
      by (simp add: count_list_0_iff)
    with None Some assms show ?thesis
      by (auto simp: get_enrichment_data_def cache_ok_def Let_def map_add_def split: option.splits)
  qed
qed

lemma cache_ok_apply:
  "cache_ok api st \<Longrightarrow> cache_ok api (snd (apply_enrichment api pids st))"
proof (induction pids arbitrary: st)
  case Nil
  then show ?case by simp
next
  case (Cons pid pids)
  from Cons.IH [OF cache_ok_step [OF Cons.prems, of pid]] show ?case
    by (simp add: split_beta Let_def)
qed

lemma known_person_queried_once:
  assumes "api p \<noteq> None"
  shows "count_list (source_queries (snd (apply_enrichment api pids no_calls))) (Some p) \<le> 1"
proof -
  have "cache_ok api no_calls" by (simp add: cache_ok_def no_calls_def)
  from cache_ok_apply [OF this, of pids] assms show ?thesis
    by (simp add: cache_ok_def source_lookup_def)
qed

subsection \<open>Cleaning\<close>

lemma rows_check_date_col:
  assumes "r' \<in> set (rows (fst (check_date_col col get put kd st)))"
  shows "(col \<notin> set (columns (fst st)) \<and> r' \<in> set (rows (fst st)))
       \<or> (col \<in> set (columns (fst st)) \<and>
          (\<exists>r \<in> set (rows (fst st)). r' = put (coerce (get r)) r \<and> (kd \<longrightarrow> get r' \<noteq> NaT)))"
  using assms by (auto simp: check_date_col_def Let_def split: if_splits)

lemma coerce_Date: "coerce c \<noteq> NaT \<Longrightarrow> \<exists>t. coerce c = Date t"
  by (cases c) simp_all

lemma set_fill_titles:
  "r' \<in> set (fill_titles prior rs) \<Longrightarrow> \<exists>r \<in> set rs. \<exists>t. r' = r\<lparr>title := t\<rparr>"
  by (induction rs arbitrary: prior) auto

lemma fillna_title_fields:
  "title (fillna_title r) \<noteq> None" "email (fillna_title r) = email r"
  "start_date (fillna_title r) = start_date r"
  by (simp_all add: fillna_title_def split: option.splits)

text \<open>
  Claim C3 says that every row \<open>clean_data\<close> returns has an address that matches the
  pattern, a valid \<open>start_date\<close> and a title, so that no row without an address is
  returned. That fails: \<open>str.match(..., na=True)\<close> lets a row without an address through.
  Of the two employees of \<open>null_email_frame\<close> both are returned, the second with no
  address.
\<close>

theorem clean_data_keeps_missing_email:
  "map email (rows (fst (clean_data null_email_frame))) = [Some ''ann@hill.com'', None]
   \<and> \<not> list_all (\<lambda>r. case email r of None \<Rightarrow> False | Some s \<Rightarrow> email_regex_match s)
          (rows (fst (clean_data null_email_frame)))"
  by code_simp

text \<open>
  Claim C3 as the code has it: in every row \<open>clean_data\<close> returns for a frame with a
  \<open>start_date\<close> column, the address is missing or matches the pattern, \<open>start_date\<close>
  is a valid date, and the title is not missing.
\<close>

theorem clean_data_postcondition:
  assumes sd: "''start_date'' \<in> set (columns df)"
  shows "\<forall>r \<in> set (rows (fst (clean_data df))).
           (email r = None \<or> (\<exists>s. email r = Some s \<and> email_regex_match s))
           \<and> (\<exists>t. start_date r = Date t)
           \<and> title r \<noteq> None"
proof (cases "df_empty df")
  case True
  then show ?thesis by (simp add: clean_data_def empty_frame_def)
next
  case False
  define kept_ok where "kept_ok = (\<lambda>r. valid_emails r \<and> (\<exists>t. start_date r = Date t))"
  define cols where "cols = add_column ''row_id'' (columns df)"
  define deduped where "deduped =
     keep_first (\<lambda>r. (person_id r, email r, start_date r)) []
       (map (\<lambda>r. r\<lparr>row_id := Some (idx r)\<rparr>) (rows df))"
  define errors1 where "errors1 =
     map (\<lambda>r. \<lparr>ve_row_id = row_id r, ve_field = ''email'',
               ve_error_reason = Invalid_email_format (email r)\<rparr>)
       (filter (\<lambda>r. \<not> valid_emails r) deduped)"
  define st1 where "st1 = (\<lparr>columns = cols, rows = filter valid_emails deduped\<rparr>, errors1)"
  define st2 where
    "st2 = check_date_col ''start_date'' start_date (\<lambda>c r. r\<lparr>start_date := c\<rparr>) True st1"
  define st3 where
    "st3 = check_date_col ''end_date'' end_date (\<lambda>c r. r\<lparr>end_date := c\<rparr>) False st2"
  define st4 where
    "st4 = check_date_col ''last_updated'' last_updated (\<lambda>c r. r\<lparr>last_updated := c\<rparr>) True st3"
  have out: "rows (fst (clean_data df))
               = map fillna_title (fill_titles [] (sort_values (rows (fst st4))))"
    using False
    by (simp add: clean_data_def Let_def st4_def st3_def st2_def st1_def errors1_def
          deduped_def cols_def)
  have cols1: "''start_date'' \<in> set (columns (fst st1))"
    using sd by (simp add: st1_def cols_def add_column_def)
  have ok2: "kept_ok r" if "r \<in> set (rows (fst st2))" for r
  proof -
    from rows_check_date_col [OF that [unfolded st2_def]] cols1
    obtain r0 where r0: "r0 \<in> set (rows (fst st1))"
        "r = r0\<lparr>start_date := coerce (start_date r0)\<rparr>" "start_date r \<noteq> NaT"
      by auto
    from r0(1) have "valid_emails r0" by (simp add: st1_def)
    with r0(2) have "valid_emails r" by (simp add: valid_emails_def)
    moreover from r0(2,3) have "\<exists>t. start_date r = Date t"
      using coerce_Date [of "start_date r0"] by simp
    ultimately show ?thesis by (simp add: kept_ok_def)
  qed
  have ok3: "kept_ok r" if "r \<in> set (rows (fst st3))" for r
    using rows_check_date_col [OF that [unfolded st3_def]] ok2
    by (auto simp: kept_ok_def valid_emails_def)
  have ok4: "kept_ok r" if "r \<in> set (rows (fst st4))" for r
    using rows_check_date_col [OF that [unfolded st4_def]] ok3
    by (auto simp: kept_ok_def valid_emails_def)
  show ?thesis
  proof
    fix r assume "r \<in> set (rows (fst (clean_data df)))"
    then obtain f where f: "f \<in> set (fill_titles [] (sort_values (rows (fst st4))))"
        "r = fillna_title f"
      unfolding out by auto
    from set_fill_titles [OF f(1)] obtain r4 t where
      r4: "r4 \<in> set (rows (fst st4))" "f = r4\<lparr>title := t\<rparr>"
      by (auto simp: sort_values_def)
    from ok4 [OF r4(1)] r4(2) have "kept_ok f"
      by (simp add: kept_ok_def valid_emails_def)
    with f(2) show "(email r = None \<or> (\<exists>s. email r = Some s \<and> email_regex_match s))
           \<and> (\<exists>t. start_date r = Date t) \<and> title r \<noteq> None"
      by (auto simp: kept_ok_def valid_emails_def fillna_title_fields split: option.splits)
  qed
qed

text \<open>The theorem at \<open>null_email_frame\<close>, whose two rows are both returned.\<close>

theorem clean_data_postcondition_witness:
  "''start_date'' \<in> set (columns null_email_frame)
   \<and> length (rows (fst (clean_data null_email_frame))) = 2
   \<and> list_all (\<lambda>r. (email r = None \<or> (\<exists>s. email r = Some s \<and> email_regex_match s))
                    \<and> (\<exists>t. start_date r = Date t) \<and> title r \<noteq> None)
       (rows (fst (clean_data null_email_frame)))"
proof -
  have h: "''start_date'' \<in> set (columns null_email_frame)"
    by code_simp
  have n: "length (rows (fst (clean_data null_email_frame))) = 2"
    by code_simp
  from clean_data_postcondition [OF h] h n show ?thesis
    unfolding list_all_iff by blast
qed

subsection \<open>The store merger\<close>

text \<open>
  Claim C7: when \<open>save_outputs\<close> merges a non-empty incoming relation into an existing
  store, the store it writes has at most one row for each key \<open>(person_id, start_date)\<close>,
  and for every incoming row the stored row of its key holds incoming values: those of
  the last incoming row with that key (the row itself when no other incoming row shares
  its key).
\<close>

theorem save_outputs_upsert:
  assumes "clean_data_file fs = Some existing_df" and "\<not> df_empty clean_df"
  shows "\<exists>store. clean_data_file (fst (save_outputs clean_df errors_df fs)) = Some store
           \<and> distinct (map store_key (rows store))
           \<and> (\<forall>r \<in> set (rows clean_df). \<exists>r' \<in> set (rows store).
                 same_values r' (last (filter (\<lambda>x. store_key x = store_key r) (rows clean_df))))"
proof -
  let ?merged = "keep_last store_key (rows existing_df @ rows clean_df)"
  let ?store = "to_parquet (merge_store existing_df clean_df)"
  have rows: "rows ?store = reset_index ?merged"
    by (simp add: to_parquet_def merge_store_def Let_def)
  have saved: "clean_data_file (fst (save_outputs clean_df errors_df fs)) = Some ?store"
    using assms by (simp add: save_outputs_def Let_def)
  have dist: "distinct (map store_key (rows ?store))"
    by (simp add: rows store_key_reset_index distinct_keep_last)
  have repl: "\<exists>r' \<in> set (rows ?store).
        same_values r' (last (filter (\<lambda>x. store_key x = store_key r) (rows clean_df)))"
    if r: "r \<in> set (rows clean_df)" for r
  proof -
    let ?P = "\<lambda>x. store_key x = store_key r"
    from r have ne: "filter ?P (rows clean_df) \<noteq> []"
      by (auto simp: filter_empty_conv)
    have "store_key r \<in> store_key ` set (rows existing_df @ rows clean_df)"
      using r by auto
    then have "last (filter ?P (rows existing_df @ rows clean_df)) \<in> set ?merged"
      by (rule last_in_keep_last)
    with ne have "last (filter ?P (rows clean_df)) \<in> set ?merged"
      by simp
    then show ?thesis
      unfolding rows by (rule reset_index_same_values)
  qed
  from saved dist repl show ?thesis by blast
qed

text \<open>The theorem at a store whose one row has the key of the one incoming row: the
  store after the merge is the incoming row, with the new title.\<close>

theorem save_outputs_upsert_witness:
  "clean_data_file upsert_files = Some store0 \<and> \<not> df_empty upsert_incoming
   \<and> (\<exists>store. clean_data_file (fst (save_outputs upsert_incoming [] upsert_files)) = Some store
         \<and> distinct (map store_key (rows store))
         \<and> (\<forall>r \<in> set (rows upsert_incoming). \<exists>r' \<in> set (rows store).
               same_values r'
                 (last (filter (\<lambda>x. store_key x = store_key r) (rows upsert_incoming)))))
   \<and> map title (rows (the (clean_data_file (fst (save_outputs upsert_incoming [] upsert_files)))))
       = [Some ''Manager'']"
proof -
  have h1: "clean_data_file upsert_files = Some store0"
    by (simp add: upsert_files_def files0_def)
  have h2: "\<not> df_empty upsert_incoming"
    by (simp add: upsert_incoming_def df_empty_def FINAL_COLUMNS_def)
  have h3: "map title (rows (the (clean_data_file (fst (save_outputs upsert_incoming [] upsert_files)))))
              = [Some ''Manager'']"
    by (simp add: save_outputs_def upsert_files_def files0_def store0_def upsert_incoming_def
          df_empty_def FINAL_COLUMNS_def merge_store_def to_parquet_def reset_index_def
          store_key_def old_employee_def blank_row_def Let_def)
  from save_outputs_upsert [OF h1 h2, of "[]"] h1 h2 h3 show ?thesis by blast
qed

text \<open>The branch of \<open>save_outputs\<close> for a store that does not exist yet writes the
  incoming relation as it is: two incoming rows of one key are both stored.\<close>

lemma first_save_keeps_both_rows_of_a_key:
  "map store_key (rows (the (clean_data_file (fst (save_outputs same_key_twice [] no_files)))))
     = [(Some ''p1'', Date 900), (Some ''p1'', Date 900)]"
  by code_simp

subsection \<open>The columns of the store\<close>

lemma projection_lists_omit_end_date:
  "''end_date'' \<notin> set FINAL_COLUMNS" "''last_updated'' \<notin> set FINAL_COLUMNS"
  "''end_date'' \<notin> set CANONICAL_COLUMNS" "''last_updated'' \<notin> set CANONICAL_COLUMNS"
  by (simp_all add: FINAL_COLUMNS_def CANONICAL_COLUMNS_def)

text \<open>
  Claim C10 says that both column lists omit \<open>end_date\<close> and \<open>last_updated\<close>, so that
  after every run the store has no \<open>end_date\<close> column. The lists do omit them, but not
  every run goes through the projection: \<open>enrich_data\<close> returns an empty frame as it
  is. On a first run whose only employee row is rejected for its address, the cleaned
  relation has no row and all its columns, and \<open>save_outputs\<close> writes it as the store,
  \<open>end_date\<close> column included.
\<close>

theorem first_run_keeps_end_date:
  "run_etl 2000 rejected_inputs no_files =
     Inr \<lparr>watermark = Some 2000,
          clean_data_file = Some \<lparr>columns = raw_columns @ [''row_id''], rows = []\<rparr>,
          validation_errors_file =
            Some [\<lparr>ve_row_id = Some 0, ve_field = ''email'',
                   ve_error_reason = Invalid_email_format (Some ''bad'')\<rparr>]\<rparr>
   \<and> ''end_date'' \<in> set (raw_columns @ [''row_id''])"
  by code_simp

text \<open>
  Claim C10 as the code has it: \<open>FINAL_COLUMNS\<close> and \<open>CANONICAL_COLUMNS\<close> omit
  \<open>end_date\<close> and \<open>last_updated\<close>, and a run that reads its input returns with a store
  without an \<open>end_date\<close> column, provided the store before the run has none or, when
  there is no store yet, provided the run ingests no employee row or cleaning keeps at
  least one.
\<close>

theorem store_without_end_date:
  assumes ing: "ingest_data (get_high_water_mark fs) (employees_csv inp) (plans_csv inp) (claims_csv inp)
             = Inr (employees_df, plans_df, claims_df)"
    and pre: "case clean_data_file fs of
                Some s \<Rightarrow> ''end_date'' \<notin> set (columns s)
              | None \<Rightarrow> df_empty employees_df \<or> rows (fst (clean_data employees_df)) \<noteq> []"
  shows "''end_date'' \<notin> set FINAL_COLUMNS \<and> ''last_updated'' \<notin> set FINAL_COLUMNS
       \<and> ''end_date'' \<notin> set CANONICAL_COLUMNS \<and> ''last_updated'' \<notin> set CANONICAL_COLUMNS
       \<and> (\<exists>fs'. run_etl now inp fs = Inr fs'
            \<and> (\<forall>s'. clean_data_file fs' = Some s' \<longrightarrow> ''end_date'' \<notin> set (columns s')))"
proof -
  let ?clean = "fst (clean_data employees_df)"
  let ?enriched = "fst (enrich_data (company_lookup inp) (api_mock inp) ?clean)"
  let ?saved = "fst (save_outputs ?enriched (fst (snd (clean_data employees_df))) fs)"
  have enriched: "''end_date'' \<notin> set (columns ?enriched)" if "\<not> df_empty ?clean"
    using enrich_data_columns [OF that] projection_lists_omit_end_date(1) by blast
  have no_cols: "?enriched = empty_frame" if "df_empty employees_df"
    using that by (simp add: clean_data_def enrich_data_empty df_empty_def empty_frame_def)
  have cleaned_cols: "columns ?clean \<noteq> []" if "\<not> df_empty employees_df"
    using that by (simp add: clean_data_def Let_def add_column_def df_empty_def)
  have saved: "''end_date'' \<notin> set (columns s')" if "clean_data_file ?saved = Some s'" for s'
  proof (cases "clean_data_file fs")
    case None
    with that have s': "s' = to_parquet ?enriched"
      by (simp add: save_outputs_store)
    from pre None consider "df_empty employees_df"
      | "\<not> df_empty employees_df" "rows ?clean \<noteq> []"
      by auto
    then show ?thesis
    proof cases
      case 1
      then show ?thesis by (simp add: s' no_cols columns_to_parquet empty_frame_def)
    next
      case 2
      with cleaned_cols have "\<not> df_empty ?clean" by (simp add: df_empty_def)
      then show ?thesis using enriched by (simp add: s' columns_to_parquet)
    qed
  next
    case (Some existing_df)
    with pre have old: "''end_date'' \<notin> set (columns existing_df)" by simp
    show ?thesis
    proof (cases "df_empty ?enriched")
      case True
      with that Some old show ?thesis by (simp add: save_outputs_store)
    next
      case False
      then have "\<not> df_empty ?clean"
        using enrich_data_empty [of ?clean] by auto
      then have new: "''end_date'' \<notin> set (columns ?enriched)" by (rule enriched)
      from that Some False have "s' = to_parquet (merge_store existing_df ?enriched)"
        by (simp add: save_outputs_store)
      with old new merge_store_columns [of existing_df ?enriched] show ?thesis
        by (auto simp: columns_to_parquet)
    qed
  qed
  have "\<exists>fs'. run_etl now inp fs = Inr fs'
            \<and> (\<forall>s'. clean_data_file fs' = Some s' \<longrightarrow> ''end_date'' \<notin> set (columns s'))"
  proof (cases "df_empty employees_df \<and> claims_df = [] \<and> plans_df = []")
    case True
    then have "df_empty employees_df" by simp
    with True pre show ?thesis
      by (auto simp: run_etl_result [OF ing] split: option.splits)
  next
    case False
    then have "run_etl now inp fs = Inr (update_high_water_mark now ?saved)"
      by (simp only: run_etl_result [OF ing] if_False)
    moreover have "clean_data_file (update_high_water_mark now ?saved) = clean_data_file ?saved"
      by (simp add: update_high_water_mark_def)
    ultimately show ?thesis
      using saved by simp
  qed
  then show ?thesis
    using projection_lists_omit_end_date by blast
qed

text \<open>The theorem at a first run that ingests one employee and keeps it: the store
  written has the columns of \<open>FINAL_COLUMNS\<close> that the input has.\<close>

theorem store_without_end_date_witness:
  "ingest_data (get_high_water_mark no_files) (employees_csv inputs0) (plans_csv inputs0)
       (claims_csv inputs0)
     = Inr (\<lparr>columns = raw_columns, rows = [old_employee]\<rparr>, [old_plan], [old_claim])
   \<and> clean_data_file no_files = None
   \<and> rows (fst (clean_data \<lparr>columns = raw_columns, rows = [old_employee]\<rparr>)) \<noteq> []
   \<and> (\<exists>fs'. run_etl 2000 inputs0 no_files = Inr fs'
         \<and> (\<exists>s'. clean_data_file fs' = Some s' \<and> ''end_date'' \<notin> set (columns s')))"
proof -
  have ing: "ingest_data (get_high_water_mark no_files) (employees_csv inputs0) (plans_csv inputs0)
       (claims_csv inputs0)
     = Inr (\<lparr>columns = raw_columns, rows = [old_employee]\<rparr>, [old_plan], [old_claim])"
    by code_simp
  have none: "clean_data_file no_files = None"
    by (simp add: no_files_def)
  have kept: "rows (fst (clean_data \<lparr>columns = raw_columns, rows = [old_employee]\<rparr>)) \<noteq> []"
    by code_simp
  have pre: "case clean_data_file no_files of
                Some s \<Rightarrow> ''end_date'' \<notin> set (columns s)
              | None \<Rightarrow> df_empty \<lparr>columns = raw_columns, rows = [old_employee]\<rparr>
                  \<or> rows (fst (clean_data \<lparr>columns = raw_columns, rows = [old_employee]\<rparr>)) \<noteq> []"
    using none kept by simp
  from store_without_end_date [OF ing pre, of 2000]
  obtain fs' where fs': "run_etl 2000 inputs0 no_files = Inr fs'"
      "\<forall>s'. clean_data_file fs' = Some s' \<longrightarrow> ''end_date'' \<notin> set (columns s')"
    by blast
  have "\<exists>s'. clean_data_file fs' = Some s'"
  proof -
    have "clean_data_file (projr (run_etl 2000 inputs0 no_files)) \<noteq> None"
      by code_simp
    with fs'(1) show ?thesis by simp
  qed
  with fs' ing none kept show ?thesis by blast
qed

section \<open>Properties of the analytics queries\<close>

lemma set_map_filter_Some: "set (List.map_filter f xs) = {y. \<exists>x \<in> set xs. f x = Some y}"
  by (induction xs) (auto simp: map_filter_simps split: option.splits)

subsection \<open>Plan gaps\<close>

lemmas gap_defs =
  plan_gaps_query_def with_next_def plans_clean_def plan_a_def plan_b_def joined_names_def
  company_name_mapping_def partition_by_def islands_def deduped_def flag_new_groups_def
  grp_of_def order_key_def end_key_def new_group_of_def island_of_def max_end_def
  List.map_filter_def final_gap_row_def select_gap_def days_from_civil_def

text \<open>
  Claim C5 says that the intervals 2023-01-01 to 2023-01-31 and 2023-02-20 to 2023-03-01
  of one group give one gap from 2023-02-01 to 2023-02-19 with \<open>gap_length_days = 19\<close>,
  and that two intervals five days apart give no gap. The query reports the one gap with
  these boundaries and \<open>gap_length_days = 18\<close>, the difference of the two boundary
  dates; it reports nothing when the second interval starts five days after the end of
  the first (2023-02-05), or after five uncovered days (2023-02-06).
\<close>

theorem plan_gap_example:
  "plan_gaps_query [plan_a, plan_b (days_from_civil 2023 2 20) (days_from_civil 2023 3 1)]
     = [\<lparr>g_company_name = ''Hillwinds Health'',
         gap_start = days_from_civil 2023 2 1, gap_end = days_from_civil 2023 2 19,
         gap_length_days = 18, previous_carrier = ''Acme'', g_next_carrier = Some ''Best''\<rparr>]
   \<and> plan_gaps_query [plan_a, plan_b (days_from_civil 2023 2 5) (days_from_civil 2023 3 1)] = []
   \<and> plan_gaps_query [plan_a, plan_b (days_from_civil 2023 2 6) (days_from_civil 2023 3 1)] = []"
  by (simp add: gap_defs)






subsection \<open>Roster mismatch\<close>

text \<open>\<open>round2\<close> rounds to two decimal places: its value is a whole number of
  hundredths, at most half a hundredth away from its argument.\<close>

lemma round2_hundredths: "\<exists>k::int. round2 x = of_int k / 100"
proof (cases "0 \<le> x")
  case True
  then show ?thesis by (auto simp: round2_def)
next
  case False
  then have "round2 x = of_int (- \<lfloor>- x * 100 + 1 / 2\<rfloor>) / 100"
    by (simp add: round2_def)
  then show ?thesis by blast
qed

lemma round2_close: "\<bar>round2 x - x\<bar> \<le> 1 / 200"
proof (cases "0 \<le> x")
  case True
  define n where "n = \<lfloor>x * 100 + 1 / 2\<rfloor>"
  have b: "of_int n \<le> x * 100 + 1 / 2" "x * 100 + 1 / 2 < of_int n + 1"
    unfolding n_def by linarith+
  have r: "round2 x = of_int n / 100"
    using True by (simp add: round2_def n_def)
  from b show ?thesis unfolding r abs_le_iff by linarith
next
  case False
  define n where "n = \<lfloor>- x * 100 + 1 / 2\<rfloor>"
  have b: "of_int n \<le> - x * 100 + 1 / 2" "- x * 100 + 1 / 2 < of_int n + 1"
    unfolding n_def by linarith+
  have r: "round2 x = - (of_int n / 100)"
    using False by (simp add: round2_def n_def)
  from b show ?thesis unfolding r abs_le_iff by linarith
qed


lemma remdups_constant: "xs \<noteq> [] \<Longrightarrow> \<forall>x \<in> set xs. x = c \<Longrightarrow> remdups xs = [c]"
proof (induction xs)
  case Nil
  then show ?case by simp
next
  case (Cons a xs)
  then show ?case by (cases xs) auto
qed

lemma partition_by_one_group:
  assumes "xs \<noteq> []" and "\<forall>x \<in> set xs. key x = c"
  shows "partition_by key xs = [xs]"
proof -
  have "remdups (map key xs) = [c]"
    using assms by (intro remdups_constant) auto
  moreover have "filter (\<lambda>r. key r = c) xs = xs"
    using assms by (simp add: filter_id_conv)
  ultimately show ?thesis by (simp add: partition_by_def)
qed

lemma employees_with_company_staff:
  "employees_with_company (staff n) =
     map (\<lambda>i. (''Hillwinds Health'', Some (replicate (Suc i) CHR ''x''))) [0..<n]"
proof -
  have "concat (map (\<lambda>i. [f i]) xs) = map f xs"
    for f :: "nat \<Rightarrow> string \<times> string option" and xs
    by (induction xs) simp_all
  then show ?thesis
    by (simp add: employees_with_company_def staff_def blank_row_def joined_names_def
          company_name_mapping_def comp_def)
qed

lemma count_distinct_staff:
  "count_distinct (map (\<lambda>i. Some (replicate (Suc i) CHR ''x'')) [0..<n]) = int n"
proof -
  have "List.map_filter id (map (\<lambda>i. Some (f i)) xs) = map f xs"
    for f :: "nat \<Rightarrow> string" and xs
    by (induction xs) (simp_all add: map_filter_simps)
  moreover have "distinct (map (\<lambda>i. replicate (Suc i) CHR ''x'') [0..<n])"
    by (auto simp: distinct_map inj_on_def dest: arg_cong [where f = length])
  ultimately show ?thesis
    by (simp add: count_distinct_def distinct_remdups_id)
qed

text \<open>The query counts the \<open>n\<close> employees of \<open>staff n\<close> as \<open>n\<close> observed employees of
  Hillwinds Health.\<close>

lemma observed_staff:
  assumes "0 < n"
  shows "observed_employee_counts (staff n) = [(''Hillwinds Health'', int n)]"
proof -
  let ?xs = "map (\<lambda>i. (''Hillwinds Health'', Some (replicate (Suc i) CHR ''x''))) [0..<n]"
  have p: "partition_by fst ?xs = [?xs]"
    using assms by (intro partition_by_one_group) auto
  have h: "fst (hd ?xs) = ''Hillwinds Health''"
    using assms by (simp add: hd_map upt_conv_Cons)
  have m: "map snd ?xs = map (\<lambda>i. Some (replicate (Suc i) CHR ''x'')) [0..<n]"
    by (simp add: comp_def)
  have "observed_employee_counts (staff n) = [(fst (hd ?xs), count_distinct (map snd ?xs))]"
    unfolding observed_employee_counts_def employees_with_company_staff p
    by (simp only: list.map)
  then show ?thesis
    unfolding h m count_distinct_staff .
qed

text \<open>
  Claim C9: every row of the roster report is for an organization of the expected table
  with its expected count and of the observed data with its observed count, its
  \<open>pct_diff\<close> is \<open>|observed - expected| * 100 / expected\<close> rounded to two decimal
  places, and its severity is Critical, High, Medium or Low as \<open>pct_diff\<close> exceeds 100,
  50, 20 or none of them; every organization in both tables has such a row. With 130
  observed employees against the 60 expected, Hillwinds Health gets \<open>pct_diff = 116.67\<close>
  and severity Critical.
\<close>

theorem roster_rule:
  "(\<forall>r \<in> set (roster_mismatch_query es).
       (r_company_name r, expected r) \<in> set company_expected_counts
     \<and> (r_company_name r, observed r) \<in> set (observed_employee_counts es)
     \<and> pct_diff r = round2 (of_int \<bar>observed r - expected r\<bar> * 100 / of_int (expected r))
     \<and> severity r = (if pct_diff r > 100 then ''Critical'' else if pct_diff r > 50 then ''High''
                      else if pct_diff r > 20 then ''Medium'' else ''Low''))
   \<and> (\<forall>(n, e) \<in> set company_expected_counts.
        \<forall>ob. (n, ob) \<in> set (observed_employee_counts es) \<longrightarrow>
          (\<exists>r \<in> set (roster_mismatch_query es).
             r_company_name r = n \<and> expected r = e \<and> observed r = ob))
   \<and> roster_mismatch_query (staff 130) =
        [\<lparr>r_company_name = ''Hillwinds Health'', expected = 60, observed = 130,
          pct_diff = 11667 / 100, severity = ''Critical''\<rparr>]"
proof -
  let ?row = "\<lambda>n e ob. \<lparr>r_company_name = n, expected = e, observed = ob,
        pct_diff = pct_diff_of e ob, severity = severity_of (pct_diff_of e ob)\<rparr>"
  have rows: "set (roster_mismatch_query es) =
      {?row n e ob | n e ob.
         (n, e) \<in> set company_expected_counts \<and> (n, ob) \<in> set (observed_employee_counts es)}"
    by (auto simp: roster_mismatch_query_def comparison_def image_iff) force+
  have p1: "(r_company_name r, expected r) \<in> set company_expected_counts
     \<and> (r_company_name r, observed r) \<in> set (observed_employee_counts es)
     \<and> pct_diff r = round2 (of_int \<bar>observed r - expected r\<bar> * 100 / of_int (expected r))
     \<and> severity r = (if pct_diff r > 100 then ''Critical'' else if pct_diff r > 50 then ''High''
                      else if pct_diff r > 20 then ''Medium'' else ''Low'')"
    if "r \<in> set (roster_mismatch_query es)" for r
  proof -
    from that obtain n e ob where "r = ?row n e ob" "(n, e) \<in> set company_expected_counts"
      "(n, ob) \<in> set (observed_employee_counts es)"
      unfolding rows by blast
    then show ?thesis by (simp add: pct_diff_of_def severity_of_def)
  qed
  have p2: "\<exists>r \<in> set (roster_mismatch_query es).
              r_company_name r = n \<and> expected r = e \<and> observed r = ob"
    if "(n, e) \<in> set company_expected_counts" "(n, ob) \<in> set (observed_employee_counts es)"
    for n e ob
  proof -
    from that have "?row n e ob \<in> set (roster_mismatch_query es)"
      unfolding rows by blast
    then show ?thesis by (rule bexI [rotated]) simp
  qed
  have p3: "roster_mismatch_query (staff 130) =
        [\<lparr>r_company_name = ''Hillwinds Health'', expected = 60, observed = 130,
          pct_diff = 11667 / 100, severity = ''Critical''\<rparr>]"
    by (simp add: roster_mismatch_query_def comparison_def observed_staff
          company_expected_counts_def pct_diff_of_def severity_of_def round2_def floor_unique)
  from p1 p2 p3 show ?thesis by blast
qed

text \<open>The theorem at two employees of Hillwinds Health: the organization is in both
  tables, and its row has the rounded difference 96.67 and severity High.\<close>

theorem roster_rule_witness:
  "(''Hillwinds Health'', 60) \<in> set company_expected_counts
   \<and> (''Hillwinds Health'', 2) \<in> set (observed_employee_counts (staff 2))
   \<and> (\<exists>r \<in> set (roster_mismatch_query (staff 2)).
         r_company_name r = ''Hillwinds Health'' \<and> expected r = 60 \<and> observed r = 2
         \<and> pct_diff r = 9667 / 100 \<and> severity r = ''High'')"
proof -
  have e: "(''Hillwinds Health'', 60) \<in> set company_expected_counts"
    by (simp add: company_expected_counts_def)
  have ob: "(''Hillwinds Health'', 2) \<in> set (observed_employee_counts (staff 2))"
    by (simp add: observed_staff)
  from roster_rule [of "staff 2"] e ob
  obtain r where r: "r \<in> set (roster_mismatch_query (staff 2))"
      "r_company_name r = ''Hillwinds Health''" "expected r = 60" "observed r = 2"
    by blast
  from roster_rule [of "staff 2"] r(1)
  have "pct_diff r = round2 (of_int \<bar>observed r - expected r\<bar> * 100 / of_int (expected r))"
    and s: "severity r = (if pct_diff r > 100 then ''Critical'' else if pct_diff r > 50 then ''High''
                      else if pct_diff r > 20 then ''Medium'' else ''Low'')"
    by blast+
  with r have p: "pct_diff r = 9667 / 100"
    by (simp add: round2_def floor_unique)
  with s have "severity r = ''High''" by simp
  with e ob r p show ?thesis by blast
qed

subsection \<open>Cost spikes\<close>

lemma filter_distinct_key:
  "distinct (map key xs) \<Longrightarrow> x \<in> set xs \<Longrightarrow> filter (\<lambda>r. key r = key x) xs = [x]"
proof (induction xs)
  case Nil
  then show ?case by simp
next
  case (Cons a xs)
  show ?case
  proof (cases "x = a")
    case True
    with Cons.prems have "key x \<notin> key ` set xs" by simp
    then have "filter (\<lambda>r. key r = key x) xs = []"
      unfolding filter_empty_conv by (metis imageI)
    with True show ?thesis by simp
  next
    case False
    with Cons.prems have "x \<in> set xs" "key a \<noteq> key x" by auto
    with Cons show ?thesis by simp
  qed
qed

lemma partition_by_distinct:
  assumes "distinct (map key xs)"
  shows "partition_by key xs = map (\<lambda>x. [x]) xs"
proof -
  have "map (\<lambda>k. filter (\<lambda>r. key r = k) xs) (map key xs) = map (\<lambda>x. [x]) xs"
    using filter_distinct_key [OF assms] by (simp add: comp_def)
  with assms show ?thesis
    by (simp add: partition_by_def distinct_remdups_id)
qed

lemma claims_with_company_series:
  "claims_with_company (daily_series a n d0) =
     map (\<lambda>i. (''Hillwinds Health'', d0 + int i, to_double (a i))) [0..<n]"
proof -
  have "concat (map (\<lambda>i. [f i]) xs) = map f xs"
    for f :: "nat \<Rightarrow> string \<times> date \<times> rat" and xs
    by (induction xs) simp_all
  then show ?thesis
    by (simp add: claims_with_company_def daily_series_def claim_on_def joined_names_def
          company_name_mapping_def comp_def)
qed

lemma daily_costs_series:
  "daily_costs (daily_series a n d0) =
     map (\<lambda>i. \<lparr>d_company_name = ''Hillwinds Health'', d_service_date = d0 + int i,
               total_daily_cost = to_double (a i)\<rparr>) [0..<n]"
proof -
  let ?xs = "map (\<lambda>i. (''Hillwinds Health'', d0 + int i, to_double (a i))) [0..<n]"
  have "distinct (map (\<lambda>c. (fst c, fst (snd c))) ?xs)"
    by (simp add: comp_def distinct_map inj_on_def)
  then have "partition_by (\<lambda>c. (fst c, fst (snd c))) ?xs = map (\<lambda>x. [x]) ?xs"
    by (rule partition_by_distinct)
  then show ?thesis
    by (simp add: daily_costs_def claims_with_company_series comp_def)
qed

text \<open>For one claim a day, the windows of the query are those of \<open>window_sum\<close>: the
  window of day \<open>i\<close> sums the amounts of the days \<open>i - 89\<close> to \<open>i\<close>, and its previous
  sum is the window of day \<open>i - 1\<close>.\<close>

lemma rolling_windows_series:
  "rolling_windows (daily_series a n d0) =
     map (\<lambda>i. \<lparr>rw_company_name = ''Hillwinds Health'', rw_window_end = d0 + int i,
               rw_window_start = d0 + int i - 89,
               current_90d_cost = window_sum a i,
               prev_90d_cost = (if i = 0 then None else Some (window_sum a (i - 1)))\<rparr>)
       [0..<n]"
proof (cases "n = 0")
  case True
  then show ?thesis
    by (simp add: rolling_windows_def daily_costs_series partition_by_def)
next
  case False
  let ?dc = "map (\<lambda>i. \<lparr>d_company_name = ''Hillwinds Health'', d_service_date = d0 + int i,
               total_daily_cost = to_double (a i)\<rparr>) [0..<n]"
  have one: "partition_by d_company_name ?dc = [?dc]"
    using False by (intro partition_by_one_group) auto
  have "sorted (map d_service_date ?dc)"
    by (simp add: comp_def sorted_map)
  then have ord: "sort_key d_service_date ?dc = ?dc"
    by (rule sort_key_id_if_sorted)
  have roll: "rolling_90d_cost ?dc i = window_sum a i" if "i < n" for i
  proof -
    have "take (Suc i) ?dc = map (\<lambda>i. \<lparr>d_company_name = ''Hillwinds Health'',
               d_service_date = d0 + int i, total_daily_cost = to_double (a i)\<rparr>) [0..<Suc i]"
      using that by (simp add: take_map del: upt_Suc)
    then show ?thesis
      by (simp add: rolling_90d_cost_def window_sum_def drop_map comp_def del: upt_Suc)
  qed
  have "rolling_windows_of ?dc =
     map (\<lambda>i. \<lparr>rw_company_name = ''Hillwinds Health'', rw_window_end = d0 + int i,
               rw_window_start = d0 + int i - 89,
               current_90d_cost = window_sum a i,
               prev_90d_cost = (if i = 0 then None else Some (window_sum a (i - 1)))\<rparr>)
       [0..<n]"
    unfolding rolling_windows_of_def Let_def ord
    by (rule map_cong [OF _ ]) (auto simp: roll)
  then show ?thesis
    by (simp add: rolling_windows_def daily_costs_series one)
qed

lemma final_spike_row_Some:
  "final_spike_row w = Some r \<longleftrightarrow>
     (\<exists>prev. prev_90d_cost w = Some prev \<and> 0 < prev
        \<and> 2 < relative_increase prev (current_90d_cost w)
        \<and> r = \<lparr>s_company_name = rw_company_name w, window_start = rw_window_start w,
                window_end = rw_window_end w, s_prev_90d_cost = prev,
                s_current_90d_cost = current_90d_cost w,
                pct_change = Some (round_double
                   (double_mul (relative_increase prev (current_90d_cost w)) 100))\<rparr>)"
  by (auto simp: final_spike_row_def pct_change_of_def split: option.splits)

lemma spike_rows:
  "set (claims_spike_query claims_raw) =
     {\<lparr>s_company_name = rw_company_name w, window_start = rw_window_start w,
       window_end = rw_window_end w, s_prev_90d_cost = prev,
       s_current_90d_cost = current_90d_cost w,
       pct_change = Some (round_double
          (double_mul (relative_increase prev (current_90d_cost w)) 100))\<rparr> | w prev.
        w \<in> set (rolling_windows claims_raw) \<and> prev_90d_cost w = Some prev
        \<and> 0 < prev \<and> 2 < relative_increase prev (current_90d_cost w)}"
  by (auto simp: claims_spike_query_def set_map_filter_Some final_spike_row_Some)

lemma spike_rows_series:
  "set (claims_spike_query (daily_series a n d0)) =
     {\<lparr>s_company_name = ''Hillwinds Health'', window_start = d0 + int i - 89,
       window_end = d0 + int i, s_prev_90d_cost = window_sum a (i - 1),
       s_current_90d_cost = window_sum a i,
       pct_change = Some (round_double
          (double_mul (relative_increase (window_sum a (i - 1)) (window_sum a i)) 100))\<rparr> | i.
        0 < i \<and> i < n \<and> 0 < window_sum a (i - 1)
        \<and> 2 < relative_increase (window_sum a (i - 1)) (window_sum a i)}"
  (is "?L = ?R")
proof -
  define W where "W = (\<lambda>i. \<lparr>rw_company_name = ''Hillwinds Health'', rw_window_end = d0 + int i,
               rw_window_start = d0 + int i - 89,
               current_90d_cost = window_sum a i,
               prev_90d_cost = (if i = 0 then None else Some (window_sum a (i - 1)))\<rparr>)"
  define row where "row = (\<lambda>i. \<lparr>s_company_name = ''Hillwinds Health'',
       window_start = d0 + int i - 89,
       window_end = d0 + int i, s_prev_90d_cost = window_sum a (i - 1),
       s_current_90d_cost = window_sum a i,
       pct_change = Some (round_double
          (double_mul (relative_increase (window_sum a (i - 1)) (window_sum a i)) 100))\<rparr>)"
  have windows: "rolling_windows (daily_series a n d0) = map W [0..<n]"
    unfolding W_def by (rule rolling_windows_series)
  have one: "final_spike_row (W i) = Some r \<longleftrightarrow>
       (0 < i \<and> 0 < window_sum a (i - 1)
        \<and> 2 < relative_increase (window_sum a (i - 1)) (window_sum a i) \<and> r = row i)" for i r
    by (cases "i = 0") (auto simp: final_spike_row_Some W_def row_def)
  have "?L = {r. \<exists>i < n. final_spike_row (W i) = Some r}"
    by (auto simp: claims_spike_query_def set_map_filter_Some windows)
  also have "\<dots> = {row i | i. 0 < i \<and> i < n \<and> 0 < window_sum a (i - 1)
        \<and> 2 < relative_increase (window_sum a (i - 1)) (window_sum a i)}"
    unfolding one by blast
  finally show ?thesis
    unfolding row_def .
qed

text \<open>
  Claim C8 says that a row is reported if and only if the previous rolling sum exists,
  is positive and is exceeded by strictly more than 200 percent, with the percentage
  rounded to two decimal places. The query computes in double precision, and that shows
  in its output. Rolling sums 800 and then 2415 are an increase of 201.875 percent,
  which rounds to 201.88; the query reports the double nearest to 201.87, since the
  ratio it computes is just below 2.01875. Amounts 0.1 and then 0.2 give the sums 0.1
  and 0.3, an increase of exactly 200 percent; the query reports a row, since the
  double sum of 0.1 and 0.2 is above 0.3.
\<close>

theorem spike_output_in_doubles:
  "claims_spike_query
       [claim_on (days_from_civil 2023 5 1) 800, claim_on (days_from_civil 2023 5 2) 1615]
     = [\<lparr>s_company_name = ''Hillwinds Health'', window_start = days_from_civil 2023 5 2 - 89,
         window_end = days_from_civil 2023 5 2, s_prev_90d_cost = 800,
         s_current_90d_cost = 2415, pct_change = Some (to_double (20187 / 100))\<rparr>]
   \<and> round2 ((2415 - 800) / 800 * 100) = 20188 / 100
   \<and> to_double (20187 / 100) \<noteq> 20188 / 100
   \<and> \<bar>to_double (20187 / 100) - 20187 / 100\<bar> < 1 / 10 ^ 12
   \<and> claims_spike_query
       [claim_on (days_from_civil 2023 5 1) (1 / 10), claim_on (days_from_civil 2023 5 2) (2 / 10)]
     = [\<lparr>s_company_name = ''Hillwinds Health'', window_start = days_from_civil 2023 5 2 - 89,
         window_end = days_from_civil 2023 5 2, s_prev_90d_cost = to_double (1 / 10),
         s_current_90d_cost = double_add (to_double (1 / 10)) (to_double (2 / 10)),
         pct_change = Some 200\<rparr>]
   \<and> ((1 / 10 + 2 / 10) - 1 / 10) / (1 / 10) = (2 :: rat)"
proof -
  have "claims_spike_query
       [claim_on (days_from_civil 2023 5 1) 800, claim_on (days_from_civil 2023 5 2) 1615]
     = [\<lparr>s_company_name = ''Hillwinds Health'', window_start = days_from_civil 2023 5 2 - 89,
         window_end = days_from_civil 2023 5 2, s_prev_90d_cost = 800,
         s_current_90d_cost = 2415, pct_change = Some (to_double (20187 / 100))\<rparr>]"
    by code_simp
  moreover have "round2 ((2415 - 800) / 800 * 100) = 20188 / 100
     \<and> to_double (20187 / 100) \<noteq> 20188 / 100
     \<and> \<bar>to_double (20187 / 100) - 20187 / 100\<bar> < 1 / 10 ^ 12
     \<and> ((1 / 10 + 2 / 10) - 1 / 10) / (1 / 10) = (2 :: rat)"
    by code_simp
  moreover have "claims_spike_query
       [claim_on (days_from_civil 2023 5 1) (1 / 10), claim_on (days_from_civil 2023 5 2) (2 / 10)]
     = [\<lparr>s_company_name = ''Hillwinds Health'', window_start = days_from_civil 2023 5 2 - 89,
         window_end = days_from_civil 2023 5 2, s_prev_90d_cost = to_double (1 / 10),
         s_current_90d_cost = double_add (to_double (1 / 10)) (to_double (2 / 10)),
         pct_change = Some 200\<rparr>]"
    by code_simp
  ultimately show ?thesis by blast
qed

text \<open>
  Claim C8 as the code has it. The rows reported are those of the windows of
  \<open>rolling_windows\<close> (one for each company and service date) whose rolling sum of the
  row before exists, is positive, and for which the ratio \<open>(current - prev) / prev\<close>,
  computed in double precision, is greater than 2; the \<open>pct_change\<close> reported is that
  double ratio times 100, rounded by \<open>ROUND(_, 2)\<close> in double precision, so a row with
  a zero or missing previous sum is never reported. For one claim a day, the rolling sum
  of a day is the double sum of its amount and of those of the 89 days before it, and the
  previous sum is that of the day before. Rolling sums 1000 and then 3500 give one row
  with \<open>pct_change = 250\<close>, also when the 1000 is the sum of two claims of one day and
  another company has claims; 1000 and then 2500 give none.
\<close>

theorem spike_rule_in_doubles:
  "set (claims_spike_query claims_raw) =
     {\<lparr>s_company_name = rw_company_name w, window_start = rw_window_start w,
       window_end = rw_window_end w, s_prev_90d_cost = prev,
       s_current_90d_cost = current_90d_cost w,
       pct_change = Some (round_double
          (double_mul (relative_increase prev (current_90d_cost w)) 100))\<rparr> | w prev.
        w \<in> set (rolling_windows claims_raw) \<and> prev_90d_cost w = Some prev
        \<and> 0 < prev \<and> 2 < relative_increase prev (current_90d_cost w)}
   \<and> set (claims_spike_query (daily_series a n d0)) =
     {\<lparr>s_company_name = ''Hillwinds Health'', window_start = d0 + int i - 89,
       window_end = d0 + int i, s_prev_90d_cost = window_sum a (i - 1),
       s_current_90d_cost = window_sum a i,
       pct_change = Some (round_double
          (double_mul (relative_increase (window_sum a (i - 1)) (window_sum a i)) 100))\<rparr> | i.
        0 < i \<and> i < n \<and> 0 < window_sum a (i - 1)
        \<and> 2 < relative_increase (window_sum a (i - 1)) (window_sum a i)}
   \<and> claims_spike_query
        [claim_on (days_from_civil 2023 5 1) 1000, claim_on (days_from_civil 2023 5 2) 2500]
      = [\<lparr>s_company_name = ''Hillwinds Health'', window_start = days_from_civil 2023 5 2 - 89,
          window_end = days_from_civil 2023 5 2, s_prev_90d_cost = 1000,
          s_current_90d_cost = 3500, pct_change = Some 250\<rparr>]
   \<and> claims_spike_query
        [claim_on (days_from_civil 2023 5 1) 1000, claim_on (days_from_civil 2023 5 2) 1500]
      = []
   \<and> claims_spike_query
        [claim_on (days_from_civil 2023 5 2) 2500, claim_on (days_from_civil 2023 5 1) 400,
         summit_claim (days_from_civil 2023 5 1) 9000, claim_on (days_from_civil 2023 5 1) 600]
      = [\<lparr>s_company_name = ''Hillwinds Health'', window_start = days_from_civil 2023 5 2 - 89,
          window_end = days_from_civil 2023 5 2, s_prev_90d_cost = 1000,
          s_current_90d_cost = 3500, pct_change = Some 250\<rparr>]"
proof -
  have "claims_spike_query
        [claim_on (days_from_civil 2023 5 1) 1000, claim_on (days_from_civil 2023 5 2) 2500]
      = [\<lparr>s_company_name = ''Hillwinds Health'', window_start = days_from_civil 2023 5 2 - 89,
          window_end = days_from_civil 2023 5 2, s_prev_90d_cost = 1000,
          s_current_90d_cost = 3500, pct_change = Some 250\<rparr>]"
    by code_simp
  moreover have "claims_spike_query
        [claim_on (days_from_civil 2023 5 1) 1000, claim_on (days_from_civil 2023 5 2) 1500]
      = []"
    by code_simp
  moreover have "claims_spike_query
        [claim_on (days_from_civil 2023 5 2) 2500, claim_on (days_from_civil 2023 5 1) 400,
         summit_claim (days_from_civil 2023 5 1) 9000, claim_on (days_from_civil 2023 5 1) 600]
      = [\<lparr>s_company_name = ''Hillwinds Health'', window_start = days_from_civil 2023 5 2 - 89,
          window_end = days_from_civil 2023 5 2, s_prev_90d_cost = 1000,
          s_current_90d_cost = 3500, pct_change = Some 250\<rparr>]"
    by code_simp
  ultimately show ?thesis
    using spike_rows [of claims_raw] spike_rows_series [of a n d0] by blast
qed

end
